theory Spec2Isabelle
  imports Complex_Main "HOL-Library.Log_Nat"
begin

section \<open>Strings and numbers as the TypeScript sources use them\<close>

text \<open>
  A JavaScript string is modelled as a HOL \<open>string\<close>; the characters outside ASCII
  that occur in the sources are written as the bytes of their UTF-8 encoding.
\<close>

definition nl :: char where
  "nl = CHR 0x0A"

definition digit_char :: "nat \<Rightarrow> char" where
  "digit_char d =
     (if d = 0 then CHR ''0'' else if d = 1 then CHR ''1'' else if d = 2 then CHR ''2''
      else if d = 3 then CHR ''3'' else if d = 4 then CHR ''4'' else if d = 5 then CHR ''5''
      else if d = 6 then CHR ''6'' else if d = 7 then CHR ''7'' else if d = 8 then CHR ''8''
      else CHR ''9'')"

text \<open>The decimal text of a non-negative integer, as a template literal prints it.\<close>

fun string_of_nat :: "nat \<Rightarrow> string" where
  "string_of_nat n =
     (if n < 10 then [digit_char n] else string_of_nat (n div 10) @ [digit_char (n mod 10)])"

declare string_of_nat.simps [simp del]

text \<open>\<^verbatim>\<open>Array.prototype.join('\n')\<close> and \<^verbatim>\<open>String.prototype.split('\n')\<close>.\<close>

fun join_lines :: "string list \<Rightarrow> string" where
  "join_lines [] = []"
| "join_lines [x] = x"
| "join_lines (x # y # ys) = x @ nl # join_lines (y # ys)"

primrec split_lines :: "string \<Rightarrow> string list" where
  "split_lines [] = [[]]"
| "split_lines (c # cs) =
     (if c = nl then [] # split_lines cs
      else (case split_lines cs of [] \<Rightarrow> [[c]] | l # ls \<Rightarrow> (c # l) # ls))"

text \<open>\<^verbatim>\<open>String.prototype.startsWith\<close>.\<close>

definition startsWith :: "string \<Rightarrow> string \<Rightarrow> bool" where
  "startsWith s p = (take (length p) s = p)"

section \<open>InstallScriptBuilder (install-script-builder.ts)\<close>

record InstallCommand =
  command :: string
  description :: string
  requiresSudo :: bool

text \<open>The builder's only field is \<^verbatim>\<open>commands\<close>; \<^verbatim>\<open>addCommand\<close> pushes at the end.\<close>

definition addCommand :: "InstallCommand list \<Rightarrow> string \<Rightarrow> string \<Rightarrow> bool \<Rightarrow> InstallCommand list" where
  "addCommand commands c d s = commands @ [\<lparr>command = c, description = d, requiresSudo = s\<rparr>]"

text \<open>
  \<^verbatim>\<open>new Date().toISOString()\<close>: the clock reading is an input of \<^verbatim>\<open>buildScript\<close>;
  the text is \<^verbatim>\<open>YYYY-MM-DDTHH:mm:ss.sssZ\<close>.
\<close>

record iso_date =
  year :: nat
  month :: nat
  day :: nat
  hours :: nat
  minutes :: nat
  seconds :: nat
  millis :: nat

definition pad_nat :: "nat \<Rightarrow> nat \<Rightarrow> string" where
  "pad_nat w n = replicate (w - length (string_of_nat n)) CHR ''0'' @ string_of_nat n"

definition toISOString :: "iso_date \<Rightarrow> string" where
  "toISOString d =
     pad_nat 4 (year d) @ ''-'' @ pad_nat 2 (month d) @ ''-'' @ pad_nat 2 (day d) @ ''T'' @
     pad_nat 2 (hours d) @ '':'' @ pad_nat 2 (minutes d) @ '':'' @ pad_nat 2 (seconds d) @ ''.'' @
     pad_nat 3 (millis d) @ ''Z''"

definition script_header :: "iso_date \<Rightarrow> string list" where
  \<open>script_header now =
     [''#!/bin/bash'',
      ''set -e'',
      '''',
      ''# Toji Launcher Installation Script'',
      ''# Generated at '' @ toISOString now,
      '''',
      ''progress() {'',
      ''  echo "PROGRESS:$1:$2"'',
      ''}'',
      '''']\<close>

definition regular_lines :: "nat \<times> InstallCommand \<Rightarrow> string list" where
  \<open>regular_lines ic =
     (case ic of (index, cmd) \<Rightarrow>
        [''progress '' @ string_of_nat (index * 10) @ '' "'' @ description cmd @ ''"'',
         ''echo ">>> '' @ description cmd @ ''"'',
         command cmd,
         ''''])\<close>

definition sudo_lines :: "nat \<times> InstallCommand \<Rightarrow> string list" where
  \<open>sudo_lines ic =
     (case ic of (index, cmd) \<Rightarrow>
        [''echo "PROGRESS:'' @ string_of_nat (50 + index * 10) @ '':'' @ description cmd @ ''"'',
         ''echo ">>> '' @ description cmd @ ''"'',
         command cmd,
         ''''])\<close>

definition announce_line :: "InstallCommand \<Rightarrow> string" where
  \<open>announce_line cmd = ''echo "  - '' @ description cmd @ ''"''\<close>

definition mktemp_line :: string where
  \<open>mktemp_line = ''SUDO_SCRIPT=$(mktemp /tmp/toji-sudo-XXXXXX.sh)''\<close>

definition heredoc_line :: string where
  \<open>heredoc_line = ''cat > "$SUDO_SCRIPT" << '' @ [CHR 0x27] @ ''EOF'' @ [CHR 0x27]\<close>

definition pkexec_line :: string where
  \<open>pkexec_line = ''pkexec bash "$SUDO_SCRIPT"''\<close>

definition rm_line :: string where
  \<open>rm_line = ''rm -f "$SUDO_SCRIPT"''\<close>

definition regular_block :: "InstallCommand list \<Rightarrow> string list" where
  "regular_block regularCommands =
     (if length regularCommands > 0
      then ''# Commands that do not require sudo'' #
           concat (map regular_lines (enumerate 0 regularCommands))
      else [])"

definition sudo_block :: "InstallCommand list \<Rightarrow> string list" where
  \<open>sudo_block sudoCommands =
     (if length sudoCommands > 0
      then [''# Commands that require sudo'',
            ''echo "The following operations require administrator privileges:"''] @
           map announce_line sudoCommands @
           ['''',
            ''# Create temporary sudo script'',
            mktemp_line,
            heredoc_line,
            ''#!/bin/bash'',
            ''set -e''] @
           concat (map sudo_lines (enumerate 0 sudoCommands)) @
           [''EOF'',
            '''',
            ''# Run with pkexec for GUI password prompt'',
            pkexec_line,
            rm_line]
      else [])\<close>

text \<open>
  The last line holds the seven bytes that the source file has between the quote and
  \<^verbatim>\<open>All\<close> (a check mark that was re-encoded).
\<close>

definition script_trailer :: "string list" where
  \<open>script_trailer =
     ['''',
      ''progress 100 "Installation complete"'',
      ''echo "'' @ [CHR 0xC3, CHR 0xA2, CHR 0xC5, CHR 0x93, CHR 0xE2, CHR 0x80, CHR 0x9C] @
        '' All installations completed successfully"'']\<close>

definition script_lines :: "iso_date \<Rightarrow> InstallCommand list \<Rightarrow> string list" where
  "script_lines now commands =
     (let regularCommands = filter (\<lambda>cmd. \<not> requiresSudo cmd) commands;
          sudoCommands = filter (\<lambda>cmd. requiresSudo cmd) commands
      in script_header now @ regular_block regularCommands @ sudo_block sudoCommands @
         script_trailer)"

definition buildScript :: "iso_date \<Rightarrow> InstallCommand list \<Rightarrow> string" where
  "buildScript now commands = join_lines (script_lines now commands)"

subsection \<open>Where the text of the script comes from\<close>

text \<open>
  The same script with every piece marked by its origin: written by the builder, or
  copied from the \<^verbatim>\<open>command\<close> or the \<^verbatim>\<open>description\<close> of a command that the caller added. A
  line is a list of such pieces; the functions below follow \<open>script_lines\<close> block by
  block, and rendering their result gives \<open>script_lines\<close> back.
\<close>

datatype fragment = Lit string | CommandText string | DescriptionText string

fun fragment_text :: "fragment \<Rightarrow> string" where
  "fragment_text (Lit s) = s"
| "fragment_text (CommandText s) = s"
| "fragment_text (DescriptionText s) = s"

definition render :: "fragment list \<Rightarrow> string" where
  "render l = concat (map fragment_text l)"

fun is_lit :: "fragment \<Rightarrow> bool" where
  "is_lit (Lit s) = True"
| "is_lit (CommandText s) = False"
| "is_lit (DescriptionText s) = False"

text \<open>A line of the builder's own: no piece of it is copied from the caller.\<close>

definition own_line :: "fragment list \<Rightarrow> bool" where
  "own_line l = list_all is_lit l"

text \<open>The command texts in a group of lines, in the order in which they stand.\<close>

fun command_text_of :: "fragment \<Rightarrow> string list" where
  "command_text_of (CommandText s) = [s]"
| "command_text_of (Lit s) = []"
| "command_text_of (DescriptionText s) = []"

definition command_texts :: "fragment list list \<Rightarrow> string list" where
  "command_texts ls = concat (map command_text_of (concat ls))"

definition lit_lines :: "string list \<Rightarrow> fragment list list" where
  "lit_lines ss = map (\<lambda>s. [Lit s]) ss"

definition tagged_regular_lines :: "nat \<times> InstallCommand \<Rightarrow> fragment list list" where
  \<open>tagged_regular_lines ic =
     (case ic of (index, cmd) \<Rightarrow>
        [[Lit (''progress '' @ string_of_nat (index * 10) @ '' "''),
          DescriptionText (description cmd), Lit ''"''],
         [Lit ''echo ">>> '', DescriptionText (description cmd), Lit ''"''],
         [CommandText (command cmd)],
         [Lit '''']])\<close>

definition tagged_sudo_lines :: "nat \<times> InstallCommand \<Rightarrow> fragment list list" where
  \<open>tagged_sudo_lines ic =
     (case ic of (index, cmd) \<Rightarrow>
        [[Lit (''echo "PROGRESS:'' @ string_of_nat (50 + index * 10) @ '':''),
          DescriptionText (description cmd), Lit ''"''],
         [Lit ''echo ">>> '', DescriptionText (description cmd), Lit ''"''],
         [CommandText (command cmd)],
         [Lit '''']])\<close>

definition tagged_announce_line :: "InstallCommand \<Rightarrow> fragment list" where
  \<open>tagged_announce_line cmd = [Lit ''echo "  - '', DescriptionText (description cmd), Lit ''"'']\<close>

definition tagged_regular_block :: "InstallCommand list \<Rightarrow> fragment list list" where
  "tagged_regular_block regularCommands =
     (if length regularCommands > 0
      then [Lit ''# Commands that do not require sudo''] #
           concat (map tagged_regular_lines (enumerate 0 regularCommands))
      else [])"





subsection \<open>What the generated script does\<close>

text \<open>
  A line of a shell script whose command word is \<^verbatim>\<open>pkexec\<close> invokes the elevation
  mechanism. The test is sound, not complete: a line can reach \<^verbatim>\<open>pkexec\<close> in other ways (after
  \<^verbatim>\<open>&&\<close>, through \<^verbatim>\<open>sudo\<close>, inside a substitution), so on text supplied by a caller the
  count below is a lower bound. On the lines that the builder writes itself it is exact.
\<close>

definition is_elevation_line :: "string \<Rightarrow> bool" where
  "is_elevation_line l =
     (takeWhile (\<lambda>c. c \<noteq> CHR '' '') (dropWhile (\<lambda>c. c = CHR '' '') l) = ''pkexec'')"


text \<open>The same count on the pieces that \<open>join_lines\<close> puts together.\<close>

definition elevation_lines :: "string list \<Rightarrow> nat" where
  "elevation_lines ps = length (filter is_elevation_line (concat (map split_lines ps)))"

definition privileged_count :: "InstallCommand list \<Rightarrow> nat" where
  "privileged_count commands = length (filter requiresSudo commands)"

text \<open>
  A line of the builder's own that invokes the elevation mechanism; and the lines of the
  builder's own checked against the list of its statements.
\<close>

definition own_elevation :: "fragment list \<Rightarrow> bool" where
  "own_elevation l = (own_line l \<and> is_elevation_line (render l))"


text \<open>
  The generated text is run by \<^verbatim>\<open>bash\<close>. The interpreter below covers the statement
  forms that \<open>script_lines\<close> emits: blank lines and comments, \<^verbatim>\<open>set -e\<close>, the definition of
  the \<^verbatim>\<open>progress\<close> function, the \<^verbatim>\<open>mktemp\<close> assignment, the here-document with the quoted
  delimiter, \<^verbatim>\<open>rm -f\<close> of the temporary file, and simple commands. Whether a simple command
  succeeds is given by \<open>ok\<close>. With \<^verbatim>\<open>errexit\<close> set, the shell exits at the first simple
  command that fails; no \<^verbatim>\<open>trap\<close> is installed by the script.
\<close>

datatype sh_mode = Running | InFunction | InHeredoc | Exited

record sh_state =
  mode :: sh_mode
  errexit :: bool
  sudo_script_exists :: bool
  elevated_runs :: nat

definition sh_init :: sh_state where
  "sh_init = \<lparr>mode = Running, errexit = False, sudo_script_exists = False, elevated_runs = 0\<rparr>"

definition sh_fail :: "sh_state \<Rightarrow> sh_state" where
  "sh_fail st = (if errexit st then st\<lparr>mode := Exited\<rparr> else st)"

definition exec_line :: "(string \<Rightarrow> bool) \<Rightarrow> sh_state \<Rightarrow> string \<Rightarrow> sh_state" where
  \<open>exec_line ok st l =
     (case mode st of
        Exited \<Rightarrow> st
      | InFunction \<Rightarrow> (if l = ''}'' then st\<lparr>mode := Running\<rparr> else st)
      | InHeredoc \<Rightarrow> (if l = ''EOF'' then st\<lparr>mode := Running\<rparr> else st)
      | Running \<Rightarrow>
          (if l = [] \<or> startsWith l ''#'' then st
           else if l = ''set -e'' then st\<lparr>errexit := True\<rparr>
           else if l = ''progress() {'' then st\<lparr>mode := InFunction\<rparr>
           else if l = mktemp_line then
             (if ok l then st\<lparr>sudo_script_exists := True\<rparr> else sh_fail st)
           else if l = heredoc_line then
             (if ok l then st\<lparr>mode := InHeredoc\<rparr> else sh_fail (st\<lparr>mode := InHeredoc\<rparr>))
           else if l = rm_line then st\<lparr>sudo_script_exists := False\<rparr>
           else if is_elevation_line l then
             (if ok l then st\<lparr>elevated_runs := Suc (elevated_runs st)\<rparr>
              else sh_fail (st\<lparr>elevated_runs := Suc (elevated_runs st)\<rparr>))
           else if ok l then st
           else sh_fail st))\<close>

definition run_script :: "(string \<Rightarrow> bool) \<Rightarrow> string \<Rightarrow> sh_state" where
  "run_script ok text = foldl (exec_line ok) sh_init (split_lines text)"

section \<open>SystemSetup (system-setup.ts)\<close>

datatype status = Checking | Found | Missing | Error | Skipped

record SystemRequirement =
  name :: string
  status :: status
  version :: "string option"
  details :: "string option"
  required :: bool

datatype install_method = Apt | Npm | Download | Manual

record InstallationItem =
  item_name :: string
  item_method :: install_method
  item_size :: string
  item_estimatedTime :: string
  item_description :: string

record InstallationPlan =
  items :: "InstallationItem list"
  totalTime :: string
  plan_requiresSudo :: bool
  canAutoInstall :: bool

subsection \<open>createInstallationPlan\<close>

definition node_item :: InstallationItem where
  "node_item = \<lparr>item_name = ''Node.js'', item_method = Apt, item_size = ''~15MB'',
     item_estimatedTime = ''2-3 minutes'',
     item_description = ''JavaScript runtime required for Claude Code CLI''\<rparr>"

definition claude_item :: InstallationItem where
  "claude_item = \<lparr>item_name = ''Claude Code CLI'', item_method = Npm, item_size = ''~5MB'',
     item_estimatedTime = ''1-2 minutes'',
     item_description = ''Anthropic'' @ [CHR 0x27] @ ''s command-line interface for Claude''\<rparr>"

text \<open>
  One turn of the \<^verbatim>\<open>for\<close> loop: the \<^verbatim>\<open>switch\<close> on the requirement's name, acting on the
  three locals \<^verbatim>\<open>items\<close>, \<^verbatim>\<open>requiresSudo\<close> and \<^verbatim>\<open>totalTimeMinutes\<close>.
\<close>

definition plan_step ::
  "InstallationItem list \<times> bool \<times> nat \<Rightarrow> SystemRequirement \<Rightarrow> InstallationItem list \<times> bool \<times> nat" where
  "plan_step acc req =
     (case acc of (its, sudo, totalTimeMinutes) \<Rightarrow>
        if name req = ''Node.js'' then (its @ [node_item], True, totalTimeMinutes + 3)
        else if name req = ''Claude Code CLI'' then (its @ [claude_item], sudo, totalTimeMinutes + 2)
        else (its, sudo, totalTimeMinutes))"

definition createInstallationPlan :: "SystemRequirement list \<Rightarrow> InstallationPlan" where
  "createInstallationPlan missingRequirements =
     (case foldl plan_step ([], False, 0) (filter (\<lambda>r. status r = Missing) missingRequirements) of
        (its, sudo, totalTimeMinutes) \<Rightarrow>
          \<lparr>items = its,
           totalTime = string_of_nat totalTimeMinutes @ ''-'' @
                       string_of_nat (totalTimeMinutes + 2) @ '' minutes'',
           plan_requiresSudo = sudo,
           canAutoInstall = (length its > 0)\<rparr>)"

text \<open>The names for which the \<^verbatim>\<open>switch\<close> has a case, and a requirement by name and status.\<close>

definition known_name :: "string \<Rightarrow> bool" where
  "known_name n = (n = ''Node.js'' \<or> n = ''Claude Code CLI'')"

definition requirement :: "string \<Rightarrow> status \<Rightarrow> SystemRequirement" where
  "requirement n s = \<lparr>name = n, status = s, version = None, details = None, required = True\<rparr>"

subsection \<open>checkAllRequirements\<close>

text \<open>
  The four probes are calls into the platform service and the authentication manager.
  Each either returns its result or throws; \<open>Inl\<close> holds the message of the thrown error.
\<close>

record OSInfo =
  supported :: bool
  os_platform :: string
  os_version :: string
  os_details :: string

record CheckResult =
  found :: bool
  check_version :: "string option"
  check_details :: "string option"

record AuthResult =
  authenticated :: bool
  auth_details :: "string option"

record probes =
  getOSInfo :: "string + OSInfo"
  checkNodeJS :: "string + CheckResult"
  checkClaudeCode :: "string + CheckResult"
  checkAuthentication :: "string + AuthResult"

datatype probe_name = GetOSInfo | CheckNodeJS | CheckClaudeCode | CheckAuthentication

text \<open>What a run does that can be seen from outside: probes called, snapshots sent.\<close>

datatype check_event = Probe probe_name | RequirementsUpdate "SystemRequirement list"

definition initial_requirements :: "SystemRequirement list" where
  "initial_requirements =
     [\<lparr>name = ''Operating System'', status = Checking, version = None, details = None, required = True\<rparr>,
      \<lparr>name = ''Node.js'', status = Checking, version = None, details = None, required = True\<rparr>,
      \<lparr>name = ''Claude Code CLI'', status = Checking, version = None, details = None, required = True\<rparr>,
      \<lparr>name = ''Claude Authentication'', status = Checking, version = None, details = None, required = True\<rparr>]"

definition check_failed :: "SystemRequirement \<Rightarrow> string \<Rightarrow> SystemRequirement" where
  "check_failed req msg = req\<lparr>status := Error, details := Some (''Check failed: '' @ msg)\<rparr>"

text \<open>
  The body of the loop for the requirement at index \<open>i\<close>: the \<^verbatim>\<open>switch\<close> inside
  \<^verbatim>\<open>try\<close>/\<^verbatim>\<open>catch\<close>. It returns the updated requirement and the events of this turn
  that precede the closing snapshot.
\<close>

definition check_requirement ::
  "probes \<Rightarrow> SystemRequirement list \<Rightarrow> nat \<Rightarrow> SystemRequirement \<times> check_event list" where
  "check_requirement env requirements i =
     (let req = requirements ! i in
      if name req = ''Operating System'' then
        (case getOSInfo env of
           Inl msg \<Rightarrow> (check_failed req msg, [Probe GetOSInfo])
         | Inr osInfo \<Rightarrow>
             (req\<lparr>status := (if supported osInfo then Found else Error),
                  version := Some (os_version osInfo),
                  details := Some (os_details osInfo)\<rparr>, [Probe GetOSInfo]))
      else if name req = ''Node.js'' then
        (case checkNodeJS env of
           Inl msg \<Rightarrow> (check_failed req msg, [Probe CheckNodeJS])
         | Inr nodeInfo \<Rightarrow>
             (req\<lparr>status := (if found nodeInfo then Found else Missing),
                  version := check_version nodeInfo,
                  details := check_details nodeInfo\<rparr>, [Probe CheckNodeJS]))
      else if name req = ''Claude Code CLI'' then
        (case checkClaudeCode env of
           Inl msg \<Rightarrow> (check_failed req msg, [Probe CheckClaudeCode])
         | Inr claudeInfo \<Rightarrow>
             (req\<lparr>status := (if found claudeInfo then Found else Missing),
                  version := check_version claudeInfo,
                  details := check_details claudeInfo\<rparr>, [Probe CheckClaudeCode]))
      else if name req = ''Claude Authentication'' then
        (if map_option status (find (\<lambda>r. name r = ''Claude Code CLI'') requirements) \<noteq> Some Found
         then (req\<lparr>status := Skipped,
                   details := Some ''Skipped - Claude Code CLI not installed''\<rparr>, [])
         else
           (let req1 = req\<lparr>details :=
                  Some ''Verifying Claude authentication (this may take up to 30 seconds)...''\<rparr>;
                shown = [RequirementsUpdate (requirements[i := req1]), Probe CheckAuthentication]
            in case checkAuthentication env of
                 Inl msg \<Rightarrow> (check_failed req1 msg, shown)
               | Inr authInfo \<Rightarrow>
                   (req1\<lparr>status := (if authenticated authInfo then Found else Missing),
                         details := auth_details authInfo\<rparr>, shown)))
      else (req, []))"

definition check_turn ::
  "probes \<Rightarrow> SystemRequirement list \<times> check_event list \<Rightarrow> nat \<Rightarrow>
   SystemRequirement list \<times> check_event list" where
  "check_turn env st i =
     (case st of (requirements, trace) \<Rightarrow>
        (case check_requirement env requirements i of
           (req', evs) \<Rightarrow>
             (let requirements' = requirements[i := req']
              in (requirements', trace @ evs @ [RequirementsUpdate requirements']))))"

definition checkAllRequirements :: "probes \<Rightarrow> SystemRequirement list \<times> check_event list" where
  "checkAllRequirements env =
     foldl (check_turn env)
       (initial_requirements, [RequirementsUpdate initial_requirements])
       [0 ..< length initial_requirements]"

definition status_of :: "string \<Rightarrow> SystemRequirement list \<Rightarrow> status option" where
  "status_of n requirements = map_option status (find (\<lambda>r. name r = n) requirements)"

section \<open>LinuxPlatformService.installAllDependencies (linux-platform-service.ts)\<close>

text \<open>The commands that \<^verbatim>\<open>installAllDependencies\<close> hands to a fresh builder.\<close>

definition install_commands :: "string list \<Rightarrow> InstallCommand list" where
  "install_commands missingDeps =
     (let b0 = [];
          b1 = (if ''Node.js'' \<in> set missingDeps
                then addCommand
                       (addCommand b0 ''apt-get update'' ''Updating package list'' True)
                       ''apt-get install -y nodejs npm'' ''Installing Node.js and npm'' True
                else b0);
          b2 = (if ''Claude Code CLI'' \<in> set missingDeps
                then addCommand b1 ''npm install -g @anthropic-ai/claude-code''
                       ''Installing Claude Code CLI'' True
                else b1)
      in b2)"

text \<open>
  An installation method needs elevated installation when the executor installs an item
  of that name through a command that it marks \<^verbatim>\<open>requiresSudo\<close>.
\<close>

definition needs_elevation :: "InstallationItem \<Rightarrow> bool" where
  "needs_elevation item = list_ex requiresSudo (install_commands [item_name item])"

text \<open>
  The child process of \<^verbatim>\<open>runInstallScript\<close> ends with an \<^verbatim>\<open>error\<close> event or with
  \<^verbatim>\<open>close\<close>, which carries the exit code (\<^verbatim>\<open>null\<close> after a signal); \<open>Closed\<close> also holds
  the text gathered from standard error. The promise settles accordingly; the progress
  lines parsed from standard output do not take part in the result.
\<close>

datatype spawn_result = SpawnError string | Closed "nat option" string

record install_env =
  saveToFile_error :: "string option"
  script_result :: spawn_result
  node_version_ok :: bool
  claude_version_ok :: bool
  unlink_error :: "string option"

definition show_code :: "nat option \<Rightarrow> string" where
  "show_code code = (case code of None \<Rightarrow> ''null'' | Some n \<Rightarrow> string_of_nat n)"

definition runInstallScript :: "install_env \<Rightarrow> string \<Rightarrow> string + unit" where
  "runInstallScript env descr =
     (case script_result env of
        SpawnError msg \<Rightarrow> Inl msg
      | Closed code stderr \<Rightarrow>
          (if code = Some 0 then Inr ()
           else Inl (''Installation failed with code '' @ show_code code @ '': '' @ stderr)))"

text \<open>
  \<open>Inl\<close> is the message of the error the returned promise rejects with. The script file
  is unlinked in \<^verbatim>\<open>finally\<close>; when that fails, its error replaces the outcome of the
  \<^verbatim>\<open>try\<close> block.
\<close>

definition installAllDependencies :: "install_env \<Rightarrow> string list \<Rightarrow> string + unit" where
  "installAllDependencies env missingDeps =
     (case saveToFile_error env of
        Some msg \<Rightarrow> Inl msg
      | None \<Rightarrow>
          (let outcome =
             (case runInstallScript env ''Installing all dependencies'' of
                Inl msg \<Rightarrow> Inl msg
              | Inr _ \<Rightarrow>
                  (if ''Node.js'' \<in> set missingDeps \<and> \<not> node_version_ok env
                   then Inl ''Node.js installation verification failed''
                   else if ''Claude Code CLI'' \<in> set missingDeps \<and> \<not> claude_version_ok env
                   then Inl ''Claude Code CLI installation verification failed''
                   else Inr ()))
           in case unlink_error env of Some msg \<Rightarrow> Inl msg | None \<Rightarrow> outcome))"

subsection \<open>SystemSetup.executeInstallationPlan\<close>

record setup_env =
  install :: install_env
  final_probes :: probes

datatype setup_event =
    InstallationComplete bool "SystemRequirement list"
  | InstallationError string bool

definition executeInstallationPlan :: "setup_env \<Rightarrow> InstallationPlan \<Rightarrow> bool \<times> setup_event list" where
  "executeInstallationPlan env plan =
     (let missingDeps = map item_name (items plan) in
      case installAllDependencies (install env) missingDeps of
        Inl msg \<Rightarrow> (False, [InstallationError msg True])
      | Inr _ \<Rightarrow>
          (let finalCheck = fst (checkAllRequirements (final_probes env));
               allInstalled =
                 list_all (\<lambda>req. status req = Found \<or> status req = Skipped \<or> \<not> required req)
                   finalCheck
           in (allInstalled, [InstallationComplete allInstalled finalCheck])))"

section \<open>BotDownloader (bot-downloader.ts)\<close>

text \<open>
  The numbers of the progress arithmetic are IEEE 754 doubles. A double is a rational
  here, and each division and multiplication rounds its exact result to the nearest
  double, ties to the even significand (53 bits). The values that occur lie far inside
  the normal range, so neither overflow nor subnormal numbers are modelled; byte counts
  are integers below \<open>2 ^ 53\<close>, which doubles hold exactly. No number of this arithmetic
  is negative, and \<open>round_double\<close> is meant for numbers from 0 on.
\<close>

definition round_half_even :: "rat \<Rightarrow> int" where
  "round_half_even r =
     (let f = \<lfloor>r\<rfloor>; d = r - of_int f
      in if d < 1 / 2 then f else if 1 / 2 < d then f + 1 else if even f then f else f + 1)"

text \<open>The exponent \<open>e\<close> with \<open>2 ^ e \<le> x < 2 ^ (e + 1)\<close>, for positive \<open>x\<close>.\<close>

definition binade :: "rat \<Rightarrow> int" where
  "binade x =
     (case quotient_of x of (p, q) \<Rightarrow>
        (let e0 = bitlen p - bitlen q in if 2 powi e0 \<le> x then e0 else e0 - 1))"

definition round_double :: "rat \<Rightarrow> rat" where
  "round_double x =
     (if x \<le> 0 then 0
      else (let u = 2 powi (binade x - 52) in of_int (round_half_even (x / u)) * u))"

text \<open>
  A division by zero gives \<^verbatim>\<open>Infinity\<close> or \<^verbatim>\<open>NaN\<close> in JavaScript, so both are values.
\<close>

datatype jsnum = Num rat | PosInf | NaN

definition js_div :: "nat \<Rightarrow> nat \<Rightarrow> jsnum" where
  "js_div a b =
     (if b = 0 then (if a = 0 then NaN else PosInf)
      else Num (round_double (of_nat a / of_nat b)))"

text \<open>Multiplication by a positive constant.\<close>

definition js_times :: "jsnum \<Rightarrow> rat \<Rightarrow> jsnum" where
  "js_times x k =
     (case x of Num r \<Rightarrow> Num (round_double (r * k)) | PosInf \<Rightarrow> PosInf | NaN \<Rightarrow> NaN)"

text \<open>\<^verbatim>\<open>Math.round\<close> is exact: the integer nearest to its argument, a half going up.\<close>

definition Math_round :: "jsnum \<Rightarrow> jsnum" where
  "Math_round x = (case x of Num r \<Rightarrow> Num (of_int \<lfloor>r + 1 / 2\<rfloor>) | PosInf \<Rightarrow> PosInf | NaN \<Rightarrow> NaN)"

definition Math_min :: "jsnum \<Rightarrow> rat \<Rightarrow> jsnum" where
  "Math_min x k = (case x of Num r \<Rightarrow> Num (min r k) | PosInf \<Rightarrow> Num k | NaN \<Rightarrow> NaN)"

text \<open>\<^verbatim>\<open>a <= b\<close> on numbers: false as soon as one side is \<^verbatim>\<open>NaN\<close>.\<close>

fun js_le :: "jsnum \<Rightarrow> jsnum \<Rightarrow> bool" where
  "js_le (Num a) (Num b) = (a \<le> b)"
| "js_le (Num a) PosInf = True"
| "js_le PosInf PosInf = True"
| "js_le _ _ = False"

text \<open>\<^verbatim>\<open>Math.round(n / 1024 / 1024)\<close> for a byte count.\<close>

definition round_mb :: "nat \<Rightarrow> nat" where
  "round_mb n = nat \<lfloor>round_double (round_double (of_nat n / 1024) / 1024) + 1 / 2\<rfloor>"

datatype stage = StageChecking | Downloading | Extracting | Verifying | Complete | StageError

record DownloadProgress =
  stage :: stage
  progress :: jsnum
  totalBytes :: "nat option"
  downloadedBytes :: "nat option"
  message :: string
  error :: "string option"

record BotRelease =
  release_version :: string
  downloadUrl :: string
  release_size :: nat
  checksum :: "string option"

text \<open>A promise as its final state; \<open>Pending\<close> is a promise that nothing ever settles.\<close>

datatype 'a promise = Resolved 'a | Rejected string | Pending

text \<open>
  A stream as the handlers see it: the \<^verbatim>\<open>data\<close> chunks by length, and how it ends:
  the destination file emits \<^verbatim>\<open>finish\<close>; the source (read stream or HTTP response)
  emits \<^verbatim>\<open>error\<close>, as when a connection is closed before the body is complete; the
  destination file emits \<^verbatim>\<open>error\<close>; or the HTTP request that carries the stream emits
  \<^verbatim>\<open>error\<close> (a file stream has no request; there this case counts as a source error).
  Handlers are followed up to the point where the promise settles, and \<^verbatim>\<open>unlinkSync\<close> in
  an error handler is taken to succeed. The error of the destination is one that the file
  emits while its handler is attached; over HTTP that handler is attached only when the
  response arrives, and a destination that fails to open before that is outside these
  endings.
\<close>

datatype stream_end = Finished | SourceError string | DestError string | RequestFailed string

record byte_stream =
  chunks :: "nat list"
  ending :: stream_end

record http_response =
  statusCode :: nat
  location :: "string option"
  body :: byte_stream

datatype http_result = RequestError string | Response http_response

text \<open>
  What a run reads from its surroundings. \<open>tar_extract\<close> stands for \<^verbatim>\<open>tar.extract\<close>: given
  the archive and the target directory, it yields its outcome and the files it wrote.
\<close>

record download_env =
  localBundlePath :: string
  localBundleSize :: "nat option"
  homedir :: string
  tmpdir :: string
  mkdir_error :: "string option"
  read_stream :: "string \<Rightarrow> byte_stream"
  https_get :: "string \<Rightarrow> http_result"
  tar_extract :: "string \<Rightarrow> string \<Rightarrow> (string + unit) \<times> string list"
  unlinkSync_error :: "string option"
  access_x :: "string \<Rightarrow> bool"
  chmod_error :: "string option"

definition botDirectory :: "download_env \<Rightarrow> string" where
  "botDirectory env = homedir env @ ''/.toji/bot''"

definition botExecutable :: "download_env \<Rightarrow> string" where
  "botExecutable env = botDirectory env @ ''/toji-bot''"

definition checkBotInstalled :: "download_env \<Rightarrow> bool" where
  "checkBotInstalled env = access_x env (botExecutable env)"

definition getLatestRelease :: "download_env \<Rightarrow> BotRelease" where
  "getLatestRelease env =
     (case localBundleSize env of
        Some sz \<Rightarrow>
          \<lparr>release_version = ''v1.0.0-local'',
           downloadUrl = ''file://'' @ localBundlePath env,
           release_size = sz,
           checksum = None\<rparr>
      | None \<Rightarrow>
          \<lparr>release_version = ''v1.0.0'',
           downloadUrl =
             ''https://github.com/yourusername/toji/releases/download/v1.0.0/toji-bot-linux.tar.gz'',
           release_size = 14 * 1024 * 1024,
           checksum = None\<rparr>)"

text \<open>
  The percent of a \<^verbatim>\<open>data\<close> handler:
  \<^verbatim>\<open>Math.min(Math.round((downloadedBytes / totalSize) * 100) * 0.5, 50)\<close>.
\<close>

definition download_percent :: "nat \<Rightarrow> nat \<Rightarrow> jsnum" where
  "download_percent downloaded totalSize =
     Math_min (js_times (Math_round (js_times (js_div downloaded totalSize) 100)) (1 / 2)) 50"

definition copy_message :: "nat \<Rightarrow> nat \<Rightarrow> string" where
  "copy_message downloaded totalSize =
     ''Copying local bundle... '' @ string_of_nat (round_mb downloaded) @ ''MB / '' @
     string_of_nat (round_mb totalSize) @ ''MB''"

definition http_message :: "nat \<Rightarrow> nat \<Rightarrow> string" where
  "http_message downloaded totalSize =
     ''Downloading... '' @ string_of_nat (round_mb downloaded) @ ''MB / '' @
     string_of_nat (round_mb totalSize) @ ''MB''"

text \<open>
  The \<^verbatim>\<open>data\<close> handler run over the chunks, \<open>downloaded\<close> being the counter
  \<^verbatim>\<open>downloadedBytes\<close>. A readable byte stream of Node never delivers an empty chunk, so a
  length of zero calls no handler.
\<close>

fun data_events :: "(nat \<Rightarrow> nat \<Rightarrow> string) \<Rightarrow> nat \<Rightarrow> nat \<Rightarrow> nat list \<Rightarrow> DownloadProgress list" where
  "data_events msg totalSize downloaded [] = []"
| "data_events msg totalSize downloaded (c # cs) =
     (if c = 0 then data_events msg totalSize downloaded cs
      else \<lparr>stage = Downloading,
            progress = download_percent (downloaded + c) totalSize,
            totalBytes = Some totalSize,
            downloadedBytes = Some (downloaded + c),
            message = msg (downloaded + c) totalSize,
            error = None\<rparr> #
           data_events msg totalSize (downloaded + c) cs)"

definition handleDownloadResponse :: "byte_stream \<Rightarrow> nat \<Rightarrow> DownloadProgress list \<times> unit promise" where
  "handleDownloadResponse response totalSize =
     (data_events http_message totalSize 0 (chunks response),
      case ending response of
        Finished \<Rightarrow> Resolved ()
      | DestError msg \<Rightarrow> Rejected msg
      | SourceError msg \<Rightarrow> Pending
      | RequestFailed msg \<Rightarrow> Pending)"

text \<open>
  \<^verbatim>\<open>request.on('error', ...)\<close>: the handler that \<open>downloadFile\<close> puts on its first request.
  It rejects when that request fails while the response is being read.
\<close>

definition on_request_error ::
  "byte_stream \<Rightarrow> DownloadProgress list \<times> unit promise \<Rightarrow> DownloadProgress list \<times> unit promise" where
  "on_request_error response r =
     (case ending response of RequestFailed msg \<Rightarrow> (fst r, Rejected msg) | _ \<Rightarrow> r)"

text \<open>
  The request made for a redirect has no \<^verbatim>\<open>error\<close> handler: when it fails, nothing settles
  the promise.
\<close>

definition downloadFile ::
  "download_env \<Rightarrow> string \<Rightarrow> string \<Rightarrow> nat \<Rightarrow> DownloadProgress list \<times> unit promise" where
  "downloadFile env url destination totalSize =
     (if startsWith url ''file://'' then
        (let sourcePath = drop (length ''file://'') url;
             readStream = read_stream env sourcePath
         in (data_events copy_message totalSize 0 (chunks readStream),
             case ending readStream of
               Finished \<Rightarrow> Resolved ()
             | SourceError msg \<Rightarrow> Rejected msg
             | DestError msg \<Rightarrow> Rejected msg
             | RequestFailed msg \<Rightarrow> Rejected msg))
      else
        (case https_get env url of
           RequestError msg \<Rightarrow> ([], Rejected msg)
         | Response response \<Rightarrow>
             (if statusCode response = 301 \<or> statusCode response = 302 then
                (case location response of
                   None \<Rightarrow> ([], Rejected ''Redirect without location header'')
                 | Some redirectUrl \<Rightarrow>
                     (if redirectUrl = [] then ([], Rejected ''Redirect without location header'')
                      else
                        (case https_get env redirectUrl of
                           RequestError msg \<Rightarrow> ([], Pending)
                         | Response redirectResponse \<Rightarrow>
                             handleDownloadResponse (body redirectResponse) totalSize)))
              else if statusCode response = 200 then
                on_request_error (body response)
                  (handleDownloadResponse (body response) totalSize)
              else ([], Rejected (''Download failed with status '' @
                                  string_of_nat (statusCode response))))))"

subsection \<open>extractArchive\<close>

text \<open>
  \<^verbatim>\<open>path.extname\<close> of Node (POSIX): the text from the last dot of the last path component
  on, empty when that component has no dot, starts with its only dot, or is \<^verbatim>\<open>..\<close>.
\<close>

definition last_component :: "string \<Rightarrow> string" where
  "last_component p =
     rev (takeWhile (\<lambda>c. c \<noteq> CHR ''/'') (dropWhile (\<lambda>c. c = CHR ''/'') (rev p)))"

definition extname :: "string \<Rightarrow> string" where
  "extname p =
     (let b = last_component p;
          after = length (takeWhile (\<lambda>c. c \<noteq> CHR ''.'') (rev b))
      in if CHR ''.'' \<notin> set b then []
         else if Suc after = length b then []
         else if b = ''..'' then []
         else drop (length b - Suc after) b)"

text \<open>The result pairs the outcome (\<open>Inl\<close>: the thrown message) with the files written.\<close>

definition extractArchive ::
  "download_env \<Rightarrow> string \<Rightarrow> string \<Rightarrow> (string + unit) \<times> string list" where
  "extractArchive env archivePath destination =
     (let extension = extname archivePath in
      if extension = ''.gz'' \<or> extension = ''.tar'' then tar_extract env archivePath destination
      else if extension = ''.zip'' then (Inl ''ZIP extraction not yet implemented'', [])
      else (Inl (''Unsupported archive format: '' @ extension), []))"

subsection \<open>downloadBot\<close>

definition progress_event :: "stage \<Rightarrow> rat \<Rightarrow> string \<Rightarrow> DownloadProgress" where
  "progress_event s p m =
     \<lparr>stage = s, progress = Num p, totalBytes = None, downloadedBytes = None, message = m,
      error = None\<rparr>"

definition downloadPath :: "download_env \<Rightarrow> string" where
  "downloadPath env = tmpdir env @ ''/toji-bot-download.tar.gz''"

text \<open>
  The \<^verbatim>\<open>try\<close> block: the events it sends and how it ends, \<open>Rejected\<close> holding the message
  of the error thrown inside it.
\<close>

definition downloadBot_try :: "download_env \<Rightarrow> DownloadProgress list \<times> unit promise" where
  "downloadBot_try env =
     (let ev1 = [progress_event StageChecking 0 ''Checking for latest bot version...''];
          release = getLatestRelease env
      in case mkdir_error env of
           Some msg \<Rightarrow> (ev1, Rejected msg)
         | None \<Rightarrow>
        (let ev2 = ev1 @
               [\<lparr>stage = Downloading, progress = Num 0,
                 totalBytes = Some (release_size release), downloadedBytes = Some 0,
                 message = ''Downloading bot '' @ release_version release @ '' ('' @
                           string_of_nat (round_mb (release_size release)) @ ''MB)...'',
                 error = None\<rparr>]
         in case downloadFile env (downloadUrl release) (downloadPath env) (release_size release) of
              (evd, Pending) \<Rightarrow> (ev2 @ evd, Pending)
            | (evd, Rejected msg) \<Rightarrow> (ev2 @ evd, Rejected msg)
            | (evd, Resolved _) \<Rightarrow>
        (let ev3 = ev2 @ evd @ [progress_event Extracting 50 ''Extracting bot files...'']
         in case fst (extractArchive env (downloadPath env) (botDirectory env)) of
              Inl msg \<Rightarrow> (ev3, Rejected msg)
            | Inr _ \<Rightarrow>
        (case unlinkSync_error env of
           Some msg \<Rightarrow> (ev3, Rejected msg)
         | None \<Rightarrow>
        (let ev4 = ev3 @ [progress_event Verifying 90 ''Verifying bot installation...'']
         in if \<not> checkBotInstalled env
            then (ev4, Rejected ''Bot verification failed - executable not found'')
            else
        (case chmod_error env of
           Some msg \<Rightarrow> (ev4, Rejected msg)
         | None \<Rightarrow>
             (ev4 @ [progress_event Complete 100 ''Bot installed successfully!''],
              Resolved ())))))))"

definition error_event :: "string \<Rightarrow> DownloadProgress" where
  "error_event msg =
     \<lparr>stage = StageError, progress = Num 0, totalBytes = None, downloadedBytes = None,
      message = ''Bot download failed'', error = Some msg\<rparr>"

definition downloadBot :: "download_env \<Rightarrow> DownloadProgress list \<times> bool promise" where
  "downloadBot env =
     (case downloadBot_try env of
        (evs, Resolved _) \<Rightarrow> (evs, Resolved True)
      | (evs, Rejected msg) \<Rightarrow> (evs @ [error_event msg], Resolved False)
      | (evs, Pending) \<Rightarrow> (evs, Pending))"

text \<open>The percent values of a run, in the order sent.\<close>

definition percents :: "DownloadProgress list \<Rightarrow> jsnum list" where
  "percents evs = map progress evs"

definition non_decreasing :: "jsnum list \<Rightarrow> bool" where
  "non_decreasing ps = sorted_wrt js_le ps"

text \<open>
  The events of a run in which no step fails, in the order sent; a run that fails or stalls
  sends a beginning of this list (and then, when it fails, the error event).
\<close>

definition pipeline_events :: "download_env \<Rightarrow> DownloadProgress list" where
  "pipeline_events env =
     (let release = getLatestRelease env in
      [progress_event StageChecking 0 ''Checking for latest bot version...'',
       \<lparr>stage = Downloading, progress = Num 0,
        totalBytes = Some (release_size release), downloadedBytes = Some 0,
        message = ''Downloading bot '' @ release_version release @ '' ('' @
                  string_of_nat (round_mb (release_size release)) @ ''MB)...'',
        error = None\<rparr>] @
      fst (downloadFile env (downloadUrl release) (downloadPath env) (release_size release)) @
      [progress_event Extracting 50 ''Extracting bot files...'',
       progress_event Verifying 90 ''Verifying bot installation...'',
       progress_event Complete 100 ''Bot installed successfully!''])"

section \<open>Sample surroundings\<close>

text \<open>Concrete inputs on which the definitions above are run.\<close>

definition install_env_claude_absent :: install_env where
  "install_env_claude_absent =
     \<lparr>saveToFile_error = None, script_result = Closed (Some 0) [],
      node_version_ok = True, claude_version_ok = False, unlink_error = None\<rparr>"

definition probes_all_found :: probes where
  "probes_all_found =
     \<lparr>getOSInfo = Inr \<lparr>supported = True, os_platform = ''linux'', os_version = ''6.1'',
                         os_details = ''Linux (6.1)''\<rparr>,
      checkNodeJS = Inr \<lparr>found = True, check_version = Some ''v20.0.0'', check_details = None\<rparr>,
      checkClaudeCode = Inr \<lparr>found = True, check_version = Some ''1.0'', check_details = None\<rparr>,
      checkAuthentication = Inr \<lparr>authenticated = True, auth_details = None\<rparr>\<rparr>"

definition probes_claude_missing :: probes where
  "probes_claude_missing =
     probes_all_found\<lparr>checkClaudeCode :=
       Inr \<lparr>found = False, check_version = None,
            check_details = Some ''Claude Code CLI is not installed''\<rparr>\<rparr>"

definition sample_download_env :: download_env where
  "sample_download_env =
     \<lparr>localBundlePath = ''/opt/toji/bot/toji-bot-linux-x64.tar.gz'',
      localBundleSize = Some 1000,
      homedir = ''/home/user'',
      tmpdir = ''/tmp'',
      mkdir_error = None,
      read_stream = (\<lambda>p. \<lparr>chunks = [300, 300, 400], ending = Finished\<rparr>),
      https_get = (\<lambda>u. RequestError ''getaddrinfo ENOTFOUND github.com''),
      tar_extract = (\<lambda>file cwd. (Inr (), [cwd @ ''/toji-bot''])),
      unlinkSync_error = None,
      access_x = (\<lambda>p. True),
      chmod_error = None\<rparr>"

text \<open>The same surroundings with an archive that \<^verbatim>\<open>tar.extract\<close> refuses.\<close>

definition corrupt_archive_env :: download_env where
  "corrupt_archive_env =
     sample_download_env\<lparr>tar_extract :=
       (\<lambda>file cwd. (Inl ''TAR_BAD_ARCHIVE: Unrecognized archive format'', []))\<rparr>"

text \<open>
  No local bundle; the server answers 200 and closes the connection after the first
  chunk, so that the response emits \<^verbatim>\<open>error\<close> and the file never finishes.
\<close>

definition dropped_connection_env :: download_env where
  "dropped_connection_env =
     sample_download_env\<lparr>localBundleSize := None,
       https_get := (\<lambda>u. Response \<lparr>statusCode = 200, location = None,
          body = \<lparr>chunks = [1000000], ending = SourceError ''aborted''\<rparr>\<rparr>)\<rparr>"

text \<open>
  No local bundle; the release URL answers 302 with a location, as release downloads do,
  and the request to that location fails.
\<close>

definition failed_redirect_env :: download_env where
  "failed_redirect_env =
     sample_download_env\<lparr>localBundleSize := None,
       https_get := (\<lambda>u.
         if u = ''https://github.com/yourusername/toji/releases/download/v1.0.0/toji-bot-linux.tar.gz''
         then Response \<lparr>statusCode = 302,
                location = Some ''https://objects.githubusercontent.com/toji-bot-linux.tar.gz'',
                body = \<lparr>chunks = [], ending = Finished\<rparr>\<rparr>
         else RequestError ''getaddrinfo ENOTFOUND objects.githubusercontent.com'')\<rparr>"

definition sample_date :: iso_date where
  "sample_date = \<lparr>year = 2024, month = 1, day = 15, hours = 9, minutes = 30, seconds = 0, millis = 0\<rparr>"

section \<open>Properties of the installation planner\<close>

lemma string_of_nat_small [simp]: "n < 10 \<Longrightarrow> string_of_nat n = [digit_char n]"
  by (simp add: string_of_nat.simps)

lemma plan_step_unknown: "\<not> known_name (name r) \<Longrightarrow> plan_step acc r = acc"
  by (cases acc) (simp add: plan_step_def known_name_def)

lemma foldl_plan_step_known:
  "foldl plan_step acc (filter (\<lambda>r. known_name (name r)) rs) = foldl plan_step acc rs"
  by (induction rs arbitrary: acc) (simp_all add: plan_step_unknown)

lemma foldl_plan_step_items:
  "i \<in> set (fst (foldl plan_step acc rs)) \<Longrightarrow>
   i \<in> set (fst acc) \<or> (\<exists>r\<in>set rs. name r = item_name i \<and> known_name (item_name i))"
proof (induction rs arbitrary: acc)
  case Nil
  then show ?case by simp
next
  case (Cons r rs)
  from Cons.prems have "i \<in> set (fst (foldl plan_step (plan_step acc r) rs))" by simp
  from Cons.IH [OF this] show ?case
  proof
    assume "i \<in> set (fst (plan_step acc r))"
    then show ?thesis
      by (cases acc) (auto simp: plan_step_def known_name_def node_item_def claude_item_def
            split: if_splits)
  next
    assume "\<exists>r\<in>set rs. name r = item_name i \<and> known_name (item_name i)"
    then show ?thesis by auto
  qed
qed

lemma foldl_plan_step_filter_known:
  "foldl plan_step acc (filter (\<lambda>r. P r \<and> known_name (name r)) rs) =
   foldl plan_step acc (filter P rs)"
  by (induction rs arbitrary: acc) (simp_all add: plan_step_unknown)

lemma filter_missing_again:
  "filter (\<lambda>r. status r = Missing) (filter (\<lambda>r. status r = Missing \<and> known_name (name r)) rs) =
   filter (\<lambda>r. status r = Missing \<and> known_name (name r)) rs"
  by (subst filter_id_conv) simp

lemma plan_canAutoInstall:
  "canAutoInstall (createInstallationPlan reqs) \<longleftrightarrow> items (createInstallationPlan reqs) \<noteq> []"
  by (simp add: createInstallationPlan_def split: prod.splits)

text \<open>
  Claim C9. Whatever list is passed to \<open>createInstallationPlan\<close>, every item of the plan
  comes from an element whose status is \<open>Missing\<close> and whose name is \<^verbatim>\<open>Node.js\<close> or
  \<^verbatim>\<open>Claude Code CLI\<close>; elements with any other status (found, error, skipped, checking) or
  any other name contribute nothing: dropping them from the input leaves the whole plan
  unchanged.
\<close>

theorem createInstallationPlan_only_missing:
  "(\<forall>i \<in> set (items (createInstallationPlan reqs)).
      \<exists>r \<in> set reqs. status r = Missing \<and> name r = item_name i \<and> known_name (name r)) \<and>
   createInstallationPlan (filter (\<lambda>r. status r = Missing \<and> known_name (name r)) reqs) =
   createInstallationPlan reqs"
proof
  show "\<forall>i \<in> set (items (createInstallationPlan reqs)).
      \<exists>r \<in> set reqs. status r = Missing \<and> name r = item_name i \<and> known_name (name r)"
  proof
    fix i
    assume "i \<in> set (items (createInstallationPlan reqs))"
    then have "i \<in> set (fst (foldl plan_step ([], False, 0) (filter (\<lambda>r. status r = Missing) reqs)))"
      by (simp add: createInstallationPlan_def split: prod.splits)
    from foldl_plan_step_items [OF this]
    show "\<exists>r \<in> set reqs. status r = Missing \<and> name r = item_name i \<and> known_name (name r)"
      by auto
  qed
  show "createInstallationPlan (filter (\<lambda>r. status r = Missing \<and> known_name (name r)) reqs) =
        createInstallationPlan reqs"
    by (simp only: createInstallationPlan_def filter_missing_again foldl_plan_step_filter_known)
qed

theorem createInstallationPlan_only_missing_witness:
  "claude_item \<in> set (items (createInstallationPlan
      [requirement ''Node.js'' Found, requirement ''Claude Code CLI'' Missing, requirement ''Docker'' Missing,
       requirement ''Node.js'' Error])) \<and>
   (\<exists>r \<in> set [requirement ''Node.js'' Found, requirement ''Claude Code CLI'' Missing, requirement ''Docker'' Missing,
       requirement ''Node.js'' Error].
      status r = Missing \<and> name r = item_name claude_item \<and> known_name (name r)) \<and>
   items (createInstallationPlan
      [requirement ''Node.js'' Found, requirement ''Claude Code CLI'' Missing, requirement ''Docker'' Missing,
       requirement ''Node.js'' Error]) = [claude_item]"
  using createInstallationPlan_only_missing
    [of "[requirement ''Node.js'' Found, requirement ''Claude Code CLI'' Missing, requirement ''Docker'' Missing,
       requirement ''Node.js'' Error]"]
  by (simp add: createInstallationPlan_def plan_step_def requirement_def claude_item_def known_name_def)

text \<open>
  What the planner does compute: \<open>requiresSudo\<close> is set exactly when \<^verbatim>\<open>Node.js\<close> is among
  the missing requirements.
\<close>

lemma foldl_plan_step_sudo:
  "fst (snd (foldl plan_step acc rs)) \<longleftrightarrow>
   fst (snd acc) \<or> (\<exists>r \<in> set rs. name r = ''Node.js'')"
  by (induction rs arbitrary: acc) (auto simp: plan_step_def split: prod.splits)

lemma plan_requiresSudo_iff_node:
  "plan_requiresSudo (createInstallationPlan reqs) \<longleftrightarrow>
   (\<exists>r \<in> set reqs. status r = Missing \<and> name r = ''Node.js'')"
  using foldl_plan_step_sudo [of "([], False, 0)" "filter (\<lambda>r. status r = Missing) reqs"]
  by (auto simp: createInstallationPlan_def split: prod.splits)

text \<open>
  Claim C4, at the plan whose only item is the Claude Code CLI. The planner gives the item
  the method \<open>Npm\<close> and leaves \<open>requiresSudo\<close> false, while \<open>installAllDependencies\<close>
  installs that very item through one command marked \<^verbatim>\<open>requiresSudo\<close>: the item needs
  elevated installation and the plan says it does not. (\<open>canAutoInstall\<close> is as claimed.)
\<close>

theorem claude_only_plan_requiresSudo:
  "items (createInstallationPlan [requirement ''Claude Code CLI'' Missing]) = [claude_item] \<and>
   item_method claude_item = Npm \<and>
   needs_elevation claude_item \<and>
   \<not> plan_requiresSudo (createInstallationPlan [requirement ''Claude Code CLI'' Missing]) \<and>
   canAutoInstall (createInstallationPlan [requirement ''Claude Code CLI'' Missing]) \<and>
   privileged_count (install_commands
     (map item_name (items (createInstallationPlan [requirement ''Claude Code CLI'' Missing])))) = 1"
  by (simp add: createInstallationPlan_def plan_step_def requirement_def claude_item_def
      needs_elevation_def install_commands_def addCommand_def privileged_count_def)

section \<open>Properties of the installation executor\<close>

text \<open>
  Claim C2. When the combined script exits with code zero and the version probe of a
  dependency named in \<open>missingDeps\<close> fails (\<^verbatim>\<open>node --version\<close> for \<^verbatim>\<open>Node.js\<close>,
  \<^verbatim>\<open>claude --version\<close> for \<^verbatim>\<open>Claude Code CLI\<close>), the promise of \<open>installAllDependencies\<close>
  rejects, and \<open>executeInstallationPlan\<close>, run on a plan with these items, returns false.
\<close>

theorem verification_failure_fails_run:
  assumes "script_result ienv = Closed (Some 0) stderr"
    and "(''Node.js'' \<in> set deps \<and> \<not> node_version_ok ienv) \<or>
         (''Claude Code CLI'' \<in> set deps \<and> \<not> claude_version_ok ienv)"
  shows "isl (installAllDependencies ienv deps) \<and>
         (install env = ienv \<and> map item_name (items plan) = deps \<longrightarrow>
            fst (executeInstallationPlan env plan) = False)"
proof -
  have rej: "isl (installAllDependencies ienv deps)"
    using assms
    by (auto simp: installAllDependencies_def runInstallScript_def Let_def split: option.splits)
  moreover have "fst (executeInstallationPlan env plan) = False"
    if "install env = ienv" "map item_name (items plan) = deps"
    using rej that
    by (cases "installAllDependencies ienv deps") (simp_all add: executeInstallationPlan_def)
  ultimately show ?thesis by blast
qed

theorem verification_failure_fails_run_witness:
  "installAllDependencies install_env_claude_absent [''Node.js'', ''Claude Code CLI''] =
     Inl ''Claude Code CLI installation verification failed'' \<and>
   fst (executeInstallationPlan
          \<lparr>install = install_env_claude_absent, final_probes = probes_all_found\<rparr>
          (createInstallationPlan
             [requirement ''Node.js'' Missing, requirement ''Claude Code CLI'' Missing])) = False"
  using verification_failure_fails_run
    [of install_env_claude_absent "[]" "[''Node.js'', ''Claude Code CLI'']"
      "\<lparr>install = install_env_claude_absent, final_probes = probes_all_found\<rparr>"
      "createInstallationPlan
         [requirement ''Node.js'' Missing, requirement ''Claude Code CLI'' Missing]"]
  by (simp add: install_env_claude_absent_def installAllDependencies_def runInstallScript_def
      createInstallationPlan_def plan_step_def requirement_def node_item_def claude_item_def)

section \<open>Properties of the requirement checker\<close>

lemma check_loop_unfold:
  "checkAllRequirements env =
     check_turn env (check_turn env (check_turn env (check_turn env
       (initial_requirements, [RequirementsUpdate initial_requirements]) 0) (Suc 0))
         (Suc (Suc 0))) (Suc (Suc (Suc 0)))"
  by (simp add: checkAllRequirements_def initial_requirements_def upt_rec)

text \<open>
  Claim C5. After a run of \<open>checkAllRequirements\<close>, every requirement has one of the
  statuses found, missing, error, skipped. A requirement is skipped only if it is
  \<^verbatim>\<open>Claude Authentication\<close> and \<^verbatim>\<open>Claude Code CLI\<close> did not come out as found. When the
  CLI is found, the authentication probe is called and the authentication requirement is
  not skipped; when it is not found, the probe is not called and the requirement is
  skipped.
\<close>

theorem checkAllRequirements_statuses:
  "(\<forall>r \<in> set (fst (checkAllRequirements env)).
       status r \<in> {Found, Missing, Error, Skipped} \<and>
       (status r = Skipped \<longrightarrow>
          name r = ''Claude Authentication'' \<and>
          status_of ''Claude Code CLI'' (fst (checkAllRequirements env)) \<noteq> Some Found)) \<and>
   (if status_of ''Claude Code CLI'' (fst (checkAllRequirements env)) = Some Found
    then Probe CheckAuthentication \<in> set (snd (checkAllRequirements env)) \<and>
         status_of ''Claude Authentication'' (fst (checkAllRequirements env)) \<noteq> Some Skipped
    else Probe CheckAuthentication \<notin> set (snd (checkAllRequirements env)) \<and>
         status_of ''Claude Authentication'' (fst (checkAllRequirements env)) = Some Skipped)"
  unfolding check_loop_unfold
  apply (cases "getOSInfo env"; cases "checkNodeJS env"; cases "checkClaudeCode env";
      cases "checkAuthentication env")
  apply (simp_all add: check_turn_def check_requirement_def initial_requirements_def
      check_failed_def status_of_def Let_def)
  done

theorem checkAllRequirements_statuses_witness:
  "status_of ''Claude Code CLI'' (fst (checkAllRequirements probes_claude_missing)) = Some Missing \<and>
   Probe CheckAuthentication \<notin> set (snd (checkAllRequirements probes_claude_missing)) \<and>
   status_of ''Claude Authentication'' (fst (checkAllRequirements probes_claude_missing)) =
     Some Skipped \<and>
   status_of ''Claude Code CLI'' (fst (checkAllRequirements probes_all_found)) = Some Found \<and>
   Probe CheckAuthentication \<in> set (snd (checkAllRequirements probes_all_found)) \<and>
   status_of ''Claude Authentication'' (fst (checkAllRequirements probes_all_found)) \<noteq>
     Some Skipped"
proof -
  have "status_of ''Claude Code CLI'' (fst (checkAllRequirements probes_claude_missing)) =
        Some Missing"
    "status_of ''Claude Code CLI'' (fst (checkAllRequirements probes_all_found)) = Some Found"
    by code_simp+
  with checkAllRequirements_statuses [of probes_claude_missing]
    checkAllRequirements_statuses [of probes_all_found]
  show ?thesis by simp
qed

section \<open>Properties of the bundle downloader\<close>

subsection \<open>Rounding to a double\<close>

text \<open>
  \<open>round_half_even\<close> gives a nearest integer, \<open>binade x\<close> is the exponent \<open>e\<close> with
  \<open>2 powi e \<le> x < 2 powi (e + 1)\<close>, and \<open>round_double\<close> is monotone, keeps the doubles
  1, 50 and 100, and has a relative error of at most \<open>1 / 2 ^ 53\<close>.
\<close>

lemma rhe_int [simp]: "round_half_even (of_int n) = n"
  by (simp add: round_half_even_def)

lemma rhe_bounds: "of_int (round_half_even r) \<le> r + 1 / 2" "r - 1 / 2 \<le> of_int (round_half_even r)"
  unfolding round_half_even_def Let_def
  by (auto; linarith)+

lemma rhe_floor: "\<lfloor>r\<rfloor> \<le> round_half_even r" "round_half_even r \<le> \<lfloor>r\<rfloor> + 1"
  by (simp_all add: round_half_even_def Let_def)

lemma rhe_mono: "r \<le> s \<Longrightarrow> round_half_even r \<le> round_half_even s"
proof -
  assume rs: "r \<le> s"
  then have fl: "\<lfloor>r\<rfloor> \<le> \<lfloor>s\<rfloor>" by (rule floor_mono)
  show ?thesis
  proof (cases "\<lfloor>r\<rfloor> = \<lfloor>s\<rfloor>")
    case True
    with rs show ?thesis
      by (auto simp: round_half_even_def Let_def)
  next
    case False
    with fl have "\<lfloor>r\<rfloor> + 1 \<le> \<lfloor>s\<rfloor>" by simp
    with rhe_floor(2) [of r] rhe_floor(1) [of s] show ?thesis by linarith
  qed
qed


lemma pow2_pos [simp]: "0 < (2::rat) powi e"
  by (simp add: power_int_def)

lemma pow2_mono: "a \<le> b \<Longrightarrow> (2::rat) powi a \<le> 2 powi b"
  by (rule power_int_increasing) simp_all

lemma pow2_strict_mono: "a < b \<Longrightarrow> (2::rat) powi a < 2 powi b"
  by (rule power_int_strict_increasing) simp_all

lemma bitlen_pow2_bounds:
  assumes "0 < p"
  shows "(2::rat) powi (bitlen p - 1) \<le> of_int p" and "of_int p < (2::rat) powi bitlen p"
proof -
  from assms have b: "1 \<le> bitlen p"
    using bitlen_eq_zero_iff [of p] bitlen_nonneg [of p] by linarith
  from bitlen_bounds [OF assms] have "2 ^ nat (bitlen p - 1) \<le> p" and "p < 2 ^ nat (bitlen p)"
    by simp_all
  then have "(of_int (2 ^ nat (bitlen p - 1)) :: rat) \<le> of_int p"
    and "(of_int p :: rat) < of_int (2 ^ nat (bitlen p))"
    by (simp_all only: of_int_le_iff of_int_less_iff)
  with b show "(2::rat) powi (bitlen p - 1) \<le> of_int p" and "of_int p < (2::rat) powi bitlen p"
    by (simp_all add: power_int_def)
qed

lemma binade_bounds:
  assumes "0 < x"
  shows "2 powi binade x \<le> x" and "x < 2 powi (binade x + 1)"
proof -
  obtain p q where pq: "quotient_of x = (p, q)" by (cases "quotient_of x")
  then have q: "0 < q" and x: "x = of_int p / of_int q"
    by (simp_all add: quotient_of_denom_pos quotient_of_div)
  with assms have p: "0 < p" by (simp add: zero_less_divide_iff)
  let ?bp = "bitlen p" and ?bq = "bitlen q"
  note P = bitlen_pow2_bounds [OF p] and Q = bitlen_pow2_bounds [OF q]
  have up: "x < 2 powi (?bp - ?bq + 1)"
  proof -
    have "of_int p / of_int q < (2::rat) powi ?bp / 2 powi (?bq - 1)"
      using P(2) Q(1) p by (intro frac_less) simp_all
    also have "\<dots> = 2 powi (?bp - (?bq - 1))"
      by (simp add: power_int_diff)
    finally show ?thesis by (simp add: x algebra_simps)
  qed
  have lo: "2 powi (?bp - ?bq - 1) < x"
  proof -
    have "(2::rat) powi (?bp - 1) / 2 powi ?bq < of_int p / of_int q"
      using P(1) Q(2) q by (intro frac_less2) simp_all
    moreover have "(2::rat) powi (?bp - 1) / 2 powi ?bq = 2 powi (?bp - 1 - ?bq)"
      by (simp add: power_int_diff)
    ultimately show ?thesis by (simp add: x algebra_simps)
  qed
  show "2 powi binade x \<le> x" and "x < 2 powi (binade x + 1)"
    using up lo by (auto simp: binade_def pq Let_def)
qed

lemma binade_unique:
  assumes "2 powi e \<le> x" and "x < 2 powi (e + 1)"
  shows "binade x = e"
proof -
  from assms(1) have pos: "0 < x" using pow2_pos [of e] by linarith
  note B = binade_bounds [OF pos]
  have "\<not> e < binade x"
  proof
    assume "e < binade x"
    then have "(2::rat) powi (e + 1) \<le> 2 powi binade x" by (intro pow2_mono) simp
    with B(1) assms(2) show False by linarith
  qed
  moreover have "\<not> binade x < e"
  proof
    assume "binade x < e"
    then have "(2::rat) powi (binade x + 1) \<le> 2 powi e" by (intro pow2_mono) simp
    with B(2) assms(1) show False by linarith
  qed
  ultimately show ?thesis by simp
qed

lemma binade_mono:
  assumes "0 < x" "x \<le> y"
  shows "binade x \<le> binade y"
proof (rule ccontr)
  assume "\<not> binade x \<le> binade y"
  then have "(2::rat) powi (binade y + 1) \<le> 2 powi binade x" by (intro pow2_mono) simp
  with binade_bounds(1) [OF assms(1)] binade_bounds(2) [of y] assms show False by simp
qed

lemma round_double_nonneg [simp]: "0 \<le> round_double x"
proof (cases "x \<le> 0")
  case True
  then show ?thesis by (simp add: round_double_def)
next
  case False
  then have "0 \<le> x / 2 powi (binade x - 52)" by simp
  then have "0 \<le> round_half_even (x / 2 powi (binade x - 52))"
    using rhe_mono [of 0 "x / 2 powi (binade x - 52)"] rhe_int [of 0] by simp
  with False show ?thesis by (simp add: round_double_def Let_def)
qed

lemma round_double_binade:
  assumes "0 < x"
  shows "2 powi binade x \<le> round_double x" and "round_double x \<le> 2 powi (binade x + 1)"
proof -
  let ?e = "binade x" and ?u = "(2::rat) powi (binade x - 52)"
  note B = binade_bounds [OF assms]
  have u: "0 < ?u" by simp
  have e1: "2 powi ?e = (2::rat) ^ 52 * ?u" and e2: "2 powi (?e + 1) = (2::rat) ^ 53 * ?u"
    by (simp_all add: power_int_diff power_int_add)
  have "(2::rat) ^ 52 \<le> x / ?u"
    using B(1) u by (simp add: e1 pos_le_divide_eq)
  then have "of_int (2 ^ 52) \<le> x / ?u" by simp
  then have l: "2 ^ 52 \<le> round_half_even (x / ?u)"
    using rhe_mono [of "of_int (2 ^ 52)" "x / ?u"] by (simp only: rhe_int)
  have "x / ?u \<le> (2::rat) ^ 53"
    using B(2) u by (simp add: e2 pos_divide_le_eq)
  then have "x / ?u \<le> of_int (2 ^ 53)" by simp
  then have h: "round_half_even (x / ?u) \<le> 2 ^ 53"
    using rhe_mono [of "x / ?u" "of_int (2 ^ 53)"] by (simp only: rhe_int)
  from l have "(2::rat) ^ 52 \<le> of_int (round_half_even (x / ?u))"
    by (metis of_int_le_iff of_int_numeral of_int_power)
  then have "(2::rat) ^ 52 * ?u \<le> of_int (round_half_even (x / ?u)) * ?u"
    using u by (simp add: mult_right_mono)
  with assms show "2 powi ?e \<le> round_double x"
    by (simp add: round_double_def Let_def e1)
  from h have "of_int (round_half_even (x / ?u)) \<le> (2::rat) ^ 53"
    by (metis of_int_le_iff of_int_numeral of_int_power)
  then have "of_int (round_half_even (x / ?u)) * ?u \<le> (2::rat) ^ 53 * ?u"
    using u by (simp add: mult_right_mono)
  with assms show "round_double x \<le> 2 powi (?e + 1)"
    by (simp add: round_double_def Let_def e2)
qed

lemma round_double_mono:
  assumes "x \<le> y"
  shows "round_double x \<le> round_double y"
proof (cases "x \<le> 0")
  case True
  then have "round_double x = 0" by (simp add: round_double_def)
  then show ?thesis by simp
next
  case False
  then have x: "0 < x" and y: "0 < y" using assms by simp_all
  show ?thesis
  proof (cases "binade x = binade y")
    case True
    let ?u = "(2::rat) powi (binade y - 52)"
    have "x / ?u \<le> y / ?u" using assms by (simp add: divide_right_mono)
    then have "round_half_even (x / ?u) \<le> round_half_even (y / ?u)" by (rule rhe_mono)
    then have "(of_int (round_half_even (x / ?u)) :: rat) * ?u \<le> of_int (round_half_even (y / ?u)) * ?u"
      by (simp add: mult_right_mono)
    with x y True show ?thesis by (simp add: round_double_def Let_def)
  next
    case False
    with binade_mono [OF x assms] have "binade x + 1 \<le> binade y" by simp
    then have "(2::rat) powi (binade x + 1) \<le> 2 powi binade y" by (rule pow2_mono)
    with round_double_binade(2) [OF x] round_double_binade(1) [OF y] show ?thesis by linarith
  qed
qed

lemma round_double_error:
  assumes "0 < x"
  shows "\<bar>round_double x - x\<bar> \<le> x / 2 ^ 53"
proof -
  let ?u = "(2::rat) powi (binade x - 52)"
  have u: "0 < ?u" by simp
  from rhe_bounds [of "x / ?u"]
  have "\<bar>of_int (round_half_even (x / ?u)) - x / ?u\<bar> \<le> 1 / 2" by linarith
  then have "\<bar>of_int (round_half_even (x / ?u)) - x / ?u\<bar> * ?u \<le> 1 / 2 * ?u"
    using u by (simp add: mult_right_mono)
  moreover have "\<bar>of_int (round_half_even (x / ?u)) - x / ?u\<bar> * ?u =
      \<bar>of_int (round_half_even (x / ?u)) * ?u - x\<bar>"
  proof -
    have "of_int (round_half_even (x / ?u)) * ?u - x =
          (of_int (round_half_even (x / ?u)) - x / ?u) * ?u"
      using u by (simp add: field_simps)
    then show ?thesis using u by (simp add: abs_mult)
  qed
  ultimately have "\<bar>round_double x - x\<bar> \<le> ?u / 2"
    using assms by (simp add: round_double_def Let_def)
  also have "?u / 2 = 2 powi binade x / 2 ^ 53"
    by (simp add: power_int_diff)
  also have "\<dots> \<le> x / 2 ^ 53"
    using binade_bounds(1) [OF assms] by (simp add: divide_right_mono)
  finally show ?thesis .
qed

lemma round_double_values:
  "round_double 1 = 1" "round_double 50 = 50" "round_double 100 = 100"
  by code_simp+


lemma floor_rat_numeral: "\<lfloor>(numeral a :: rat) / numeral b\<rfloor> = numeral a div numeral b"
  by (metis floor_divide_of_int_eq of_int_numeral)

lemma round_double_at:
  assumes "2 powi e \<le> x" and "x < 2 powi (e + 1)"
  shows "round_double x = of_int (round_half_even (x / 2 powi (e - 52))) * 2 powi (e - 52)"
proof -
  from assms(1) have "0 < x" using pow2_pos [of e] by linarith
  with binade_unique [OF assms] show ?thesis by (simp add: round_double_def Let_def)
qed

lemma round_double_0 [simp]: "round_double 0 = 0"
  by (simp add: round_double_def)

lemma download_percent_eval:
  fixes r1 r2 r3 :: rat
  assumes "0 < t"
    and "2 powi e1 \<le> (of_nat d / of_nat t :: rat)" "(of_nat d / of_nat t :: rat) < 2 powi (e1 + 1)"
    and "r1 = of_int (round_half_even (of_nat d / of_nat t / 2 powi (e1 - 52))) * 2 powi (e1 - 52)"
    and "2 powi e2 \<le> r1 * 100" "r1 * 100 < 2 powi (e2 + 1)"
    and "r2 = of_int (round_half_even (r1 * 100 / 2 powi (e2 - 52))) * 2 powi (e2 - 52)"
    and "k = \<lfloor>r2 + 1 / 2\<rfloor>"
    and "2 powi e3 \<le> (of_int k :: rat) * (1 / 2)" "(of_int k :: rat) * (1 / 2) < 2 powi (e3 + 1)"
    and "r3 = of_int (round_half_even (of_int k * (1 / 2) / 2 powi (e3 - 52))) * 2 powi (e3 - 52)"
  shows "download_percent d t = Num (min r3 50)"
proof -
  have 1: "round_double (of_nat d / of_nat t) = r1"
    using round_double_at [OF assms(2,3)] assms(4) by simp
  have 2: "round_double (r1 * 100) = r2"
    using round_double_at [OF assms(5,6)] assms(7) by simp
  have 3: "round_double (of_int k * (1 / 2)) = r3"
    using round_double_at [OF assms(9,10)] assms(11) by simp
  from assms(1) have a: "js_div d t = Num r1"
    by (simp add: js_div_def 1)
  have b: "js_times (Num r1) 100 = Num r2"
    by (simp only: js_times_def jsnum.case 2)
  have c: "Math_round (Num r2) = Num (of_int k)"
    by (simp only: Math_round_def jsnum.case assms(8))
  have d: "js_times (Num (of_int k)) (1 / 2) = Num r3"
    by (simp only: js_times_def jsnum.case 3)
  show ?thesis
    by (simp only: download_percent_def a b c d Math_min_def jsnum.case)
qed

subsection \<open>The percent at given byte counts\<close>

text \<open>
  The percent at the byte counts of the sample run, and at two inputs where the rounding
  of the product shows: \<^verbatim>\<open>29 / 200 * 100\<close> is \<^verbatim>\<open>14.499999999999998\<close> in doubles and rounds to
  14, \<^verbatim>\<open>23 / 40 * 100\<close> is \<^verbatim>\<open>57.49999999999999\<close> and rounds to 57.
\<close>

lemma download_percent_300_1000: "download_percent 300 1000 = Num (15)"
proof -
  have "download_percent 300 1000 = Num (min (15) 50)"
    by (rule download_percent_eval [where ?e1.0 = "-2" and ?r1.0 = "5404319552844595 / 18014398509481984" and ?e2.0 = "4"
          and ?r2.0 = "30" and k = "30" and ?e3.0 = "3"])
       (simp_all add: power_int_minus round_half_even_def Let_def floor_rat_numeral)
  then show ?thesis by simp
qed

lemma download_percent_600_1000: "download_percent 600 1000 = Num (30)"
proof -
  have "download_percent 600 1000 = Num (min (30) 50)"
    by (rule download_percent_eval [where ?e1.0 = "-1" and ?r1.0 = "5404319552844595 / 9007199254740992" and ?e2.0 = "5"
          and ?r2.0 = "60" and k = "60" and ?e3.0 = "4"])
       (simp_all add: power_int_minus round_half_even_def Let_def floor_rat_numeral)
  then show ?thesis by simp
qed

lemma download_percent_1000_1000: "download_percent 1000 1000 = Num (50)"
proof -
  have "download_percent 1000 1000 = Num (min (50) 50)"
    by (rule download_percent_eval [where ?e1.0 = "0" and ?r1.0 = "1" and ?e2.0 = "6"
          and ?r2.0 = "100" and k = "100" and ?e3.0 = "5"])
       (simp_all add: power_int_minus round_half_even_def Let_def floor_rat_numeral)
  then show ?thesis by simp
qed

lemma download_percent_29_200: "download_percent 29 200 = Num (7)"
proof -
  have "download_percent 29 200 = Num (min (7) 50)"
    by (rule download_percent_eval [where ?e1.0 = "-3" and ?r1.0 = "5224175567749775 / 36028797018963968" and ?e2.0 = "3"
          and ?r2.0 = "8162774324609023 / 562949953421312" and k = "14" and ?e3.0 = "2"])
       (simp_all add: power_int_minus round_half_even_def Let_def floor_rat_numeral)
  then show ?thesis by simp
qed

lemma download_percent_23_40: "download_percent 23 40 = Num (57 / 2)"
proof -
  have "download_percent 23 40 = Num (min (57 / 2) 50)"
    by (rule download_percent_eval [where ?e1.0 = "-1" and ?r1.0 = "2589569785738035 / 4503599627370496" and ?e2.0 = "5"
          and ?r2.0 = "8092405580431359 / 140737488355328" and k = "57" and ?e3.0 = "4"])
       (simp_all add: power_int_minus round_half_even_def Let_def floor_rat_numeral)
  then show ?thesis by simp
qed

subsection \<open>The percent for all byte counts\<close>

lemma download_percent_range:
  "0 < d \<Longrightarrow> \<exists>p. download_percent d t = Num p \<and> 0 \<le> p \<and> p \<le> 50"
  by (cases "t = 0")
     (simp_all add: download_percent_def js_div_def js_times_def Math_round_def Math_min_def)

lemma download_percent_mono:
  assumes "0 < a" "a \<le> b"
  shows "js_le (download_percent a t) (download_percent b t)"
proof (cases "t = 0")
  case True
  with assms show ?thesis
    by (simp add: download_percent_def js_div_def js_times_def Math_round_def Math_min_def)
next
  case False
  let ?y = "\<lambda>n::nat. round_double (round_double (of_nat n / of_nat t) * 100)"
  have "(of_nat a :: rat) / of_nat t \<le> of_nat b / of_nat t"
    using assms False by (simp add: divide_right_mono)
  then have "round_double (of_nat a / of_nat t) \<le> round_double (of_nat b / of_nat t)"
    by (rule round_double_mono)
  then have "round_double (of_nat a / of_nat t) * 100 \<le> round_double (of_nat b / of_nat t) * 100"
    by simp
  then have "?y a \<le> ?y b"
    by (rule round_double_mono)
  then have "?y a + 1 / 2 \<le> ?y b + 1 / 2"
    by simp
  then have "\<lfloor>?y a + 1 / 2\<rfloor> \<le> \<lfloor>?y b + 1 / 2\<rfloor>"
    by (rule floor_mono)
  then have "(of_int \<lfloor>?y a + 1 / 2\<rfloor> :: rat) * (1 / 2) \<le> of_int \<lfloor>?y b + 1 / 2\<rfloor> * (1 / 2)"
    by simp
  then have "round_double (of_int \<lfloor>?y a + 1 / 2\<rfloor> * (1 / 2))
      \<le> round_double (of_int \<lfloor>?y b + 1 / 2\<rfloor> * (1 / 2))"
    by (rule round_double_mono)
  with False show ?thesis
    by (simp add: download_percent_def js_div_def js_times_def Math_round_def Math_min_def
        min_le_iff_disj del: times_divide_eq_right)
qed

lemma download_percent_full:
  assumes "0 < d" "t \<le> d"
  shows "download_percent d t = Num 50"
proof (cases "t = 0")
  case True
  with assms show ?thesis
    by (simp add: download_percent_def js_div_def js_times_def Math_round_def Math_min_def)
next
  case False
  let ?q = "round_double (of_nat d / of_nat t)"
  let ?y = "round_double (?q * 100)"
  let ?k = "\<lfloor>?y + 1 / 2\<rfloor>"
  have "(1::rat) \<le> of_nat d / of_nat t" using assms False by simp
  from round_double_mono [OF this] have q: "1 \<le> ?q" by (simp add: round_double_values)
  then have "100 \<le> ?q * 100" by simp
  from round_double_mono [OF this] have y: "100 \<le> ?y" by (simp add: round_double_values)
  then have "(100::int) \<le> ?k" by linarith
  then have "(50::rat) \<le> of_int ?k * (1 / 2)" by simp
  from round_double_mono [OF this] have "50 \<le> round_double (of_int ?k * (1 / 2))"
    by (simp add: round_double_values del: times_divide_eq_right)
  with False show ?thesis
    by (simp add: download_percent_def js_div_def js_times_def Math_round_def Math_min_def
        del: times_divide_eq_right)
qed

lemma round_double_error0:
  assumes "0 \<le> x"
  shows "\<bar>round_double x - x\<bar> \<le> x / 2 ^ 53"
proof (cases "x = 0")
  case True
  then show ?thesis by simp
next
  case False
  with assms have "0 < x" by simp
  then show ?thesis by (rule round_double_error)
qed

lemma download_percent_scaled:
  assumes "0 < d" "d \<le> t"
  shows "\<exists>p. download_percent d t = Num p \<and> \<bar>p - 50 * of_nat d / of_nat t\<bar> \<le> 13 / 50"
proof -
  from assms have t: "0 < t" by simp
  define q :: rat where "q = of_nat d / of_nat t"
  define q1 where "q1 = round_double q"
  define y where "y = round_double (q1 * 100)"
  define k where "k = \<lfloor>y + 1 / 2\<rfloor>"
  define h where "h = round_double (of_int k * (1 / 2))"
  define eps :: rat where "eps = 1 / 2 ^ 53"
  have eps: "0 < eps" "eps \<le> 1 / 1000000" by (simp_all add: eps_def)
  have q: "0 < q" "q \<le> 1" using assms t by (simp_all add: q_def)
  have q1a: "\<bar>q1 - q\<bar> \<le> q * eps"
    using round_double_error0 [of q] q by (simp add: q1_def eps_def)
  have q1b: "0 \<le> q1" by (simp add: q1_def)
  have q1c: "q1 \<le> 1"
    using round_double_mono [OF q(2)] by (simp add: q1_def round_double_values)
  have ya: "\<bar>y - q1 * 100\<bar> \<le> q1 * 100 * eps"
    using round_double_error0 [of "q1 * 100"] q1b by (simp add: y_def eps_def)
  have yb: "0 \<le> y" by (simp add: y_def)
  have ka: "of_int k \<le> y + 1 / 2" "y + 1 / 2 < of_int k + 1"
    unfolding k_def by linarith+
  have kb: "0 \<le> k" using yb by (simp add: k_def)
  then have kc: "(0::rat) \<le> of_int k * (1 / 2)" by simp
  have ha: "\<bar>h - of_int k * (1 / 2)\<bar> \<le> of_int k * (1 / 2) * eps"
    using round_double_error0 [OF kc] by (simp add: h_def eps_def del: times_divide_eq_right)
  have p: "download_percent d t = Num (min h 50)"
    using t by (simp add: download_percent_def js_div_def js_times_def Math_round_def
        Math_min_def h_def k_def y_def q1_def q_def del: times_divide_eq_right)
  have e1: "q * eps \<le> eps" using q eps by simp
  have e2: "q1 * 100 * eps \<le> 100 * eps" using q1b q1c eps by simp
  have y100: "y \<le> 101" using ya e2 q1c eps unfolding abs_le_iff by linarith
  have k51: "(of_int k :: rat) * (1 / 2) \<le> 51" using ka(1) y100 by linarith
  have e3: "of_int k * (1 / 2) * eps \<le> 51 * eps"
    using k51 eps by (simp add: mult_right_mono del: times_divide_eq_right)
  have "\<bar>min h 50 - 50 * q\<bar> \<le> 13 / 50"
    using q1a ya ka ha e1 e2 e3 q eps unfolding min_def abs_le_iff
    by (auto; linarith)
  with p show ?thesis by (auto simp: q_def)
qed

text \<open>The definitions that a concrete run unfolds.\<close>

lemmas run_defs =
  downloadBot_def downloadBot_try_def getLatestRelease_def downloadFile_def
  handleDownloadResponse_def on_request_error_def startsWith_def extractArchive_def extname_def last_component_def
  downloadPath_def botDirectory_def botExecutable_def checkBotInstalled_def
  percents_def non_decreasing_def progress_event_def error_event_def
  download_percent_300_1000 download_percent_600_1000 download_percent_1000_1000 Let_def

subsection \<open>extractArchive\<close>

text \<open>
  Claim C8 as stated fails: \<^verbatim>\<open>.tar\<close> is not the extension of a gzip-compressed tar
  archive, yet for a path ending in \<^verbatim>\<open>.tar\<close> \<open>extractArchive\<close> raises nothing and hands the
  file to \<^verbatim>\<open>tar.extract\<close>, which writes into the destination.
\<close>

theorem tar_path_is_extracted:
  "extname ''/tmp/toji-bot.tar'' = ''.tar'' \<and>
   extractArchive sample_download_env ''/tmp/toji-bot.tar'' ''/home/user/.toji/bot'' =
     (Inr (), [''/home/user/.toji/bot/toji-bot''])"
  by (simp add: extractArchive_def extname_def last_component_def sample_download_env_def)

text \<open>
  Claim C8, amended. For every archive path whose \<^verbatim>\<open>path.extname\<close> is neither \<^verbatim>\<open>.gz\<close> nor
  \<^verbatim>\<open>.tar\<close>, \<open>extractArchive\<close> throws without calling \<^verbatim>\<open>tar.extract\<close> and writes no
  file: for \<^verbatim>\<open>.zip\<close> the message is \<^verbatim>\<open>ZIP extraction not yet implemented\<close>, for any other
  extension \<^verbatim>\<open>Unsupported archive format:\<close> followed by the extension.
\<close>

theorem extractArchive_unsupported:
  assumes "extname archivePath \<noteq> ''.gz''" and "extname archivePath \<noteq> ''.tar''"
  shows "extractArchive env archivePath destination =
           (Inl (if extname archivePath = ''.zip'' then ''ZIP extraction not yet implemented''
                 else ''Unsupported archive format: '' @ extname archivePath), [])"
  using assms by (simp add: extractArchive_def Let_def)

theorem extractArchive_unsupported_witness:
  "extractArchive sample_download_env ''/tmp/toji-bot.zip'' ''/home/user/.toji/bot'' =
     (Inl ''ZIP extraction not yet implemented'', []) \<and>
   extractArchive sample_download_env ''/tmp/toji-bot.7z'' ''/home/user/.toji/bot'' =
     (Inl ''Unsupported archive format: .7z'', [])"
  using extractArchive_unsupported [of "''/tmp/toji-bot.zip''" sample_download_env "''/home/user/.toji/bot''"]
    extractArchive_unsupported [of "''/tmp/toji-bot.7z''" sample_download_env "''/home/user/.toji/bot''"]
  by (simp add: extname_def last_component_def)

subsection \<open>Progress of the download stage\<close>

lemma data_events_props:
  "e \<in> set (data_events msg t d cs) \<Longrightarrow>
   stage e = Downloading \<and>
   (\<exists>d'. d < d' \<and> downloadedBytes e = Some d' \<and> totalBytes e = Some t \<and>
      progress e = download_percent d' t)"
proof (induction cs arbitrary: d)
  case Nil
  then show ?case by simp
next
  case (Cons c cs)
  show ?case
  proof (cases "c = 0")
    case True
    with Cons show ?thesis by simp
  next
    case False
    with Cons.prems consider
      "e = \<lparr>stage = Downloading, progress = download_percent (d + c) t,
            totalBytes = Some t, downloadedBytes = Some (d + c), message = msg (d + c) t,
            error = None\<rparr>"
      | "e \<in> set (data_events msg t (d + c) cs)"
      by auto
    then show ?thesis
    proof cases
      case 1
      with False show ?thesis by auto
    next
      case 2
      from Cons.IH [OF this] False show ?thesis by auto
    qed
  qed
qed

lemma data_events_sorted:
  "sorted_wrt js_le (map progress (data_events msg t d cs))"
proof (induction cs arbitrary: d)
  case Nil
  then show ?case by simp
next
  case (Cons c cs)
  show ?case
  proof (cases "c = 0")
    case True
    with Cons show ?thesis by simp
  next
    case False
    have "js_le (download_percent (d + c) t) (progress e)"
      if "e \<in> set (data_events msg t (d + c) cs)" for e
    proof -
      from data_events_props [OF that] obtain d' where
        "d + c < d'" "progress e = download_percent d' t" by auto
      with False show ?thesis by (simp add: download_percent_mono)
    qed
    with False Cons.IH [of "d + c"] show ?thesis by auto
  qed
qed

lemma downloadFile_events:
  "e \<in> set (fst (downloadFile env url dest t)) \<Longrightarrow>
   stage e = Downloading \<and>
   (\<exists>d'. 0 < d' \<and> downloadedBytes e = Some d' \<and> totalBytes e = Some t \<and>
      progress e = download_percent d' t)"
  by (auto simp: downloadFile_def handleDownloadResponse_def on_request_error_def Let_def
      split: if_splits http_result.splits option.splits stream_end.splits
      dest: data_events_props)

lemma downloadFile_sorted:
  "sorted_wrt js_le (map progress (fst (downloadFile env url dest t)))"
  by (auto simp: downloadFile_def handleDownloadResponse_def on_request_error_def Let_def
      data_events_sorted split: if_splits http_result.splits option.splits stream_end.splits)

subsection \<open>The events of a whole run\<close>

lemma try_events_prefix:
  "\<exists>rest. pipeline_events env = fst (downloadBot_try env) @ rest"
  by (simp add: pipeline_events_def downloadBot_try_def Let_def
      split: option.splits prod.splits promise.splits sum.splits)

lemma pipeline_events_stage:
  "e \<in> set (pipeline_events env) \<Longrightarrow> stage e \<noteq> StageError"
  by (auto simp: pipeline_events_def Let_def progress_event_def dest: downloadFile_events)

lemma pipeline_events_range:
  "e \<in> set (pipeline_events env) \<Longrightarrow> stage e = Downloading \<Longrightarrow>
   \<exists>p. progress e = Num p \<and> 0 \<le> p \<and> p \<le> 50"
  using download_percent_range
  by (auto simp: pipeline_events_def Let_def progress_event_def dest!: downloadFile_events)

lemma pipeline_events_above_50:
  "e \<in> set (pipeline_events env) \<Longrightarrow> progress e = Num p \<Longrightarrow> 50 < p \<Longrightarrow>
   (stage e = Verifying \<and> p = 90) \<or> (stage e = Complete \<and> p = 100)"
proof -
  assume e: "e \<in> set (pipeline_events env)" and p: "progress e = Num p" "50 < p"
  let ?r = "getLatestRelease env"
  from e consider
    "e \<in> set (fst (downloadFile env (downloadUrl ?r) (downloadPath env) (release_size ?r)))"
    | "progress e = Num 0" | "progress e = Num 50"
    | "stage e = Verifying" "progress e = Num 90"
    | "stage e = Complete" "progress e = Num 100"
    by (auto simp: pipeline_events_def Let_def progress_event_def)
  then show ?thesis
  proof cases
    case 1
    from downloadFile_events [OF this] obtain d' where
      "0 < d'" "progress e = download_percent d' (release_size ?r)" by auto
    with download_percent_range [of d' "release_size ?r"] p show ?thesis by auto
  qed (use p in auto)
qed

lemma pipeline_events_sorted:
  "sorted_wrt js_le (map progress (pipeline_events env))"
proof -
  let ?r = "getLatestRelease env"
  let ?evd = "fst (downloadFile env (downloadUrl ?r) (downloadPath env) (release_size ?r))"
  have rng: "\<exists>p. progress e = Num p \<and> 0 \<le> p \<and> p \<le> 50" if "e \<in> set ?evd" for e
  proof -
    from downloadFile_events [OF that] obtain d' where
      "0 < d'" "progress e = download_percent d' (release_size ?r)" by auto
    with download_percent_range [of d' "release_size ?r"] show ?thesis by auto
  qed
  have lo: "js_le (Num 0) (progress e)" if "e \<in> set ?evd" for e
    using rng [OF that] by auto
  have hi: "js_le (progress e) (Num 50) \<and> js_le (progress e) (Num 90) \<and>
            js_le (progress e) (Num 100)" if "e \<in> set ?evd" for e
    using rng [OF that] by auto
  show ?thesis
    using lo hi downloadFile_sorted [of env "downloadUrl ?r" "downloadPath env" "release_size ?r"]
    by (simp add: pipeline_events_def Let_def progress_event_def sorted_wrt_append)
qed

lemma try_events_subset:
  "set (fst (downloadBot_try env)) \<subseteq> set (pipeline_events env)"
  using try_events_prefix [of env] by auto

lemma try_events_sorted:
  "sorted_wrt js_le (map progress (fst (downloadBot_try env)))"
proof -
  from try_events_prefix [of env] obtain rest where
    "pipeline_events env = fst (downloadBot_try env) @ rest" ..
  with pipeline_events_sorted [of env] show ?thesis
    by (simp add: sorted_wrt_append)
qed

lemma downloadBot_events:
  "fst (downloadBot env) = fst (downloadBot_try env) \<or>
   (\<exists>msg. fst (downloadBot env) = fst (downloadBot_try env) @ [error_event msg] \<and>
      snd (downloadBot env) = Resolved False)"
  by (auto simp: downloadBot_def split: prod.splits promise.splits)

lemma filter_no_error:
  "filter (\<lambda>e. stage e \<noteq> StageError) (fst (downloadBot env)) = fst (downloadBot_try env)"
proof -
  have "filter (\<lambda>e. stage e \<noteq> StageError) (fst (downloadBot_try env)) = fst (downloadBot_try env)"
    using try_events_subset [of env] pipeline_events_stage [of _ env]
    by (subst filter_id_conv) auto
  with downloadBot_events [of env] show ?thesis
    by (auto simp: error_event_def)
qed

text \<open>
  Claim C7. Every progress event that \<open>downloadFile\<close> sends, from a local file or over
  HTTP, has the stage \<open>Downloading\<close> and the percent
  \<^verbatim>\<open>Math.min(Math.round(downloadedBytes / totalSize * 100) * 0.5, 50)\<close>, evaluated in doubles.
  That number lies between 0 and 50; it is 50 once \<open>downloadedBytes\<close> has reached
  \<open>totalSize\<close>, and before that it is half of the share \<open>downloadedBytes / totalSize\<close> taken in
  percent, up to the rounding to a whole percent: it differs from
  \<open>50 * downloadedBytes / totalSize\<close> by at most 0.26. In a whole run of \<open>downloadBot\<close> every
  event of the downloading stage has a percent of at most 50, and an event with a percent
  above 50 belongs to one of the stages extracting, verifying, complete.
\<close>

theorem downloading_percent_at_most_50:
  "(\<forall>e \<in> set (fst (downloadFile env url dest t)).
      stage e = Downloading \<and>
      (\<exists>d p. 0 < d \<and> downloadedBytes e = Some d \<and> totalBytes e = Some t \<and>
             progress e = download_percent d t \<and>
             progress e = Num p \<and> 0 \<le> p \<and> p \<le> 50 \<and>
             (t \<le> d \<longrightarrow> p = 50) \<and>
             (d \<le> t \<longrightarrow> \<bar>p - 50 * of_nat d / of_nat t\<bar> \<le> 13 / 50))) \<and>
   (\<forall>e \<in> set (fst (downloadBot env)).
      (stage e = Downloading \<longrightarrow> (\<exists>p. progress e = Num p \<and> 0 \<le> p \<and> p \<le> 50)) \<and>
      (\<forall>p. progress e = Num p \<and> 50 < p \<longrightarrow> stage e \<in> {Extracting, Verifying, Complete}))"
proof (intro conjI ballI)
  fix e assume "e \<in> set (fst (downloadFile env url dest t))"
  from downloadFile_events [OF this] obtain d' where
    d: "stage e = Downloading" "0 < d'" "downloadedBytes e = Some d'" "totalBytes e = Some t"
       "progress e = download_percent d' t" by auto
  from download_percent_range [OF d(2), of t] obtain p where
    p: "download_percent d' t = Num p" "0 \<le> p" "p \<le> 50" by auto
  have full: "p = 50" if "t \<le> d'"
    using download_percent_full [OF d(2) that] p(1) by simp
  have scaled: "\<bar>p - 50 * of_nat d' / of_nat t\<bar> \<le> 13 / 50" if "d' \<le> t"
    using download_percent_scaled [OF d(2) that] p(1) by auto
  show "stage e = Downloading" by (rule d(1))
  show "\<exists>d p. 0 < d \<and> downloadedBytes e = Some d \<and> totalBytes e = Some t \<and>
             progress e = download_percent d t \<and>
             progress e = Num p \<and> 0 \<le> p \<and> p \<le> 50 \<and>
             (t \<le> d \<longrightarrow> p = 50) \<and>
             (d \<le> t \<longrightarrow> \<bar>p - 50 * of_nat d / of_nat t\<bar> \<le> 13 / 50)"
    using d p full scaled by (intro exI [of _ d'] exI [of _ p]) simp
next
  fix e assume e: "e \<in> set (fst (downloadBot env))"
  from e downloadBot_events [of env] try_events_subset [of env]
  have c: "e \<in> set (pipeline_events env) \<or> (\<exists>msg. e = error_event msg)" by auto
  show "stage e = Downloading \<longrightarrow> (\<exists>p. progress e = Num p \<and> 0 \<le> p \<and> p \<le> 50)"
    using c pipeline_events_range [of e env] by (auto simp: error_event_def)
  show "\<forall>p. progress e = Num p \<and> 50 < p \<longrightarrow> stage e \<in> {Extracting, Verifying, Complete}"
    using c pipeline_events_above_50 [of e env] by (auto simp: error_event_def)
qed

theorem downloading_percent_at_most_50_witness:
  "stage (fst (downloadBot sample_download_env) ! 2) = Downloading \<and>
   downloadedBytes (fst (downloadBot sample_download_env) ! 2) = Some 300 \<and>
   totalBytes (fst (downloadBot sample_download_env) ! 2) = Some 1000 \<and>
   progress (fst (downloadBot sample_download_env) ! 2) = Num 15 \<and>
   (\<exists>p. progress (fst (downloadBot sample_download_env) ! 2) = Num p \<and> 0 \<le> p \<and> p \<le> 50) \<and>
   download_percent 29 200 = Num 7 \<and> download_percent 23 40 = Num (57 / 2)"
proof -
  have a: "fst (downloadBot sample_download_env) ! 2 \<in> set (fst (downloadBot sample_download_env))"
    "stage (fst (downloadBot sample_download_env) ! 2) = Downloading"
    "downloadedBytes (fst (downloadBot sample_download_env) ! 2) = Some 300"
    "totalBytes (fst (downloadBot sample_download_env) ! 2) = Some 1000"
    "progress (fst (downloadBot sample_download_env) ! 2) = Num 15"
    by (simp_all add: run_defs sample_download_env_def)
  from downloading_percent_at_most_50 [of sample_download_env "[]" "[]" 0] a
    download_percent_29_200 download_percent_23_40
  show ?thesis by blast
qed

text \<open>
  Claim C6 as stated fails on a run that ends in the error stage: the error event is
  sent with percent 0 after events with a higher percent. Here the archive is refused
  after the download has reached 50.
\<close>

theorem error_run_percent_drops:
  "snd (downloadBot corrupt_archive_env) = Resolved False \<and>
   map stage (fst (downloadBot corrupt_archive_env)) =
     [StageChecking, Downloading, Downloading, Downloading, Downloading, Extracting, StageError] \<and>
   percents (fst (downloadBot corrupt_archive_env)) =
     [Num 0, Num 0, Num 15, Num 30, Num 50, Num 50, Num 0] \<and>
   \<not> non_decreasing (percents (fst (downloadBot corrupt_archive_env)))"
  by (simp add: run_defs corrupt_archive_env_def sample_download_env_def)

text \<open>
  Claim C6, amended. In every run of \<open>downloadBot\<close> the percent values of the events
  other than the error event are non-decreasing; a percent of 100 is sent only with the
  stage complete; an event of the error stage occurs only in a run that resolves false
  and carries percent 0. In a run that resolves true the whole sequence of percent values
  is non-decreasing.
\<close>

theorem percents_non_decreasing_until_error:
  "non_decreasing (percents (filter (\<lambda>e. stage e \<noteq> StageError) (fst (downloadBot env)))) \<and>
   (\<forall>e \<in> set (fst (downloadBot env)).
      (progress e = Num 100 \<longrightarrow> stage e = Complete) \<and>
      (stage e = StageError \<longrightarrow> progress e = Num 0 \<and> snd (downloadBot env) = Resolved False)) \<and>
   (snd (downloadBot env) = Resolved True \<longrightarrow>
      non_decreasing (percents (fst (downloadBot env))))"
proof (intro conjI ballI impI)
  show "non_decreasing (percents (filter (\<lambda>e. stage e \<noteq> StageError) (fst (downloadBot env))))"
    by (simp add: filter_no_error non_decreasing_def percents_def try_events_sorted)
next
  fix e assume e: "e \<in> set (fst (downloadBot env))" and p: "progress e = Num 100"
  from e downloadBot_events [of env] try_events_subset [of env]
  have "e \<in> set (pipeline_events env) \<or> (\<exists>msg. e = error_event msg)" by auto
  then show "stage e = Complete"
  proof
    assume "e \<in> set (pipeline_events env)"
    from pipeline_events_above_50 [OF this p] show ?thesis by simp
  next
    assume "\<exists>msg. e = error_event msg"
    with p show ?thesis by (auto simp: error_event_def)
  qed
next
  fix e assume e: "e \<in> set (fst (downloadBot env))" and s: "stage e = StageError"
  from e downloadBot_events [of env] try_events_subset [of env]
  have "e \<in> set (pipeline_events env) \<or>
        ((\<exists>msg. e = error_event msg) \<and> snd (downloadBot env) = Resolved False)" by auto
  with s pipeline_events_stage [of e env]
  show "progress e = Num 0" and "snd (downloadBot env) = Resolved False"
    by (auto simp: error_event_def)
next
  assume "snd (downloadBot env) = Resolved True"
  then have "fst (downloadBot env) = fst (downloadBot_try env)"
    using downloadBot_events [of env] by auto
  then show "non_decreasing (percents (fst (downloadBot env)))"
    by (simp add: non_decreasing_def percents_def try_events_sorted)
qed

theorem percents_non_decreasing_until_error_witness:
  "snd (downloadBot sample_download_env) = Resolved True \<and>
   non_decreasing (percents (fst (downloadBot sample_download_env))) \<and>
   stage (last (fst (downloadBot corrupt_archive_env))) = StageError \<and>
   progress (last (fst (downloadBot corrupt_archive_env))) = Num 0"
proof -
  have a: "snd (downloadBot sample_download_env) = Resolved True"
    by (simp add: run_defs sample_download_env_def)
  have b: "last (fst (downloadBot corrupt_archive_env)) \<in> set (fst (downloadBot corrupt_archive_env))"
    "stage (last (fst (downloadBot corrupt_archive_env))) = StageError"
    by (simp_all add: run_defs corrupt_archive_env_def sample_download_env_def)
  from percents_non_decreasing_until_error [of sample_download_env] a
    percents_non_decreasing_until_error [of corrupt_archive_env] b
  show ?thesis by blast
qed

subsection \<open>How downloadBot settles\<close>

text \<open>
  The promise of \<open>downloadBot\<close> never rejects, and whenever the promise of \<open>downloadFile\<close>
  settles, the run ends as follows: it resolves true after the complete event, or it
  resolves false after exactly one event of the error stage, which carries the message.
\<close>

lemma downloadBot_never_rejects: "snd (downloadBot env) \<noteq> Rejected msg"
  by (simp add: downloadBot_def split: prod.splits promise.splits)

lemma try_resolved_events:
  "snd (downloadBot_try env) = Resolved u \<Longrightarrow> fst (downloadBot_try env) = pipeline_events env"
  by (simp add: pipeline_events_def downloadBot_try_def Let_def
      split: option.splits prod.splits promise.splits sum.splits if_splits)

lemma try_pending:
  "snd (downloadBot_try env) = Pending \<Longrightarrow>
   snd (downloadFile env (downloadUrl (getLatestRelease env)) (downloadPath env)
          (release_size (getLatestRelease env))) = Pending"
  by (simp add: downloadBot_try_def Let_def
      split: option.splits prod.splits promise.splits sum.splits if_splits)

lemma downloadBot_settled:
  assumes "snd (downloadFile env (downloadUrl (getLatestRelease env)) (downloadPath env)
             (release_size (getLatestRelease env))) \<noteq> Pending"
  shows "(snd (downloadBot env) = Resolved True \<and> fst (downloadBot env) = pipeline_events env \<and>
          last (fst (downloadBot env)) =
            progress_event Complete 100 ''Bot installed successfully!'') \<or>
         (\<exists>msg. snd (downloadBot env) = Resolved False \<and>
            fst (downloadBot env) = fst (downloadBot_try env) @ [error_event msg] \<and>
            filter (\<lambda>e. stage e = StageError) (fst (downloadBot env)) = [error_event msg])"
proof (cases "snd (downloadBot_try env)")
  case (Resolved u)
  then have "fst (downloadBot_try env) = pipeline_events env"
    by (rule try_resolved_events)
  with Resolved show ?thesis
    by (auto simp: downloadBot_def pipeline_events_def Let_def split: prod.splits)
next
  case (Rejected msg)
  have "filter (\<lambda>e. stage e = StageError) (fst (downloadBot_try env)) = []"
    using try_events_subset [of env] pipeline_events_stage [of _ env]
    by (auto simp: filter_empty_conv)
  with Rejected show ?thesis
    by (auto simp: downloadBot_def error_event_def split: prod.splits)
next
  case Pending
  with try_pending [of env] assms show ?thesis by simp
qed

text \<open>
  Claim C10, at two remote downloads that fail. In the first the release URL answers 302
  and the request to the new location fails: that request has no \<^verbatim>\<open>error\<close> handler. In the
  second the server answers 200 and closes the connection after the first chunk: the
  response emits \<^verbatim>\<open>error\<close>, for which \<open>handleDownloadResponse\<close> registers no handler (the
  \<^verbatim>\<open>file://\<close> branch rejects on the same event), and the file never emits \<^verbatim>\<open>finish\<close>. Either
  way the promise of \<open>downloadFile\<close> stays pending, so \<open>downloadBot\<close> resolves neither true
  nor false and sends no error event.
\<close>

theorem stalled_download_never_settles:
  "snd (downloadBot failed_redirect_env) = Pending \<and>
   map stage (fst (downloadBot failed_redirect_env)) = [StageChecking, Downloading] \<and>
   snd (downloadBot dropped_connection_env) = Pending \<and>
   map stage (fst (downloadBot dropped_connection_env)) =
     [StageChecking, Downloading, Downloading]"
  by (simp add: run_defs failed_redirect_env_def dropped_connection_env_def
      sample_download_env_def)

section \<open>Properties of the script builder\<close>

subsection \<open>Lines of the script text\<close>

lemma split_lines_nonempty [simp]: "split_lines s \<noteq> []"
  by (induction s) (auto split: list.splits)

lemma split_lines_append_nl:
  "split_lines (x @ nl # rest) = split_lines x @ split_lines rest"
proof (induction x)
  case Nil
  then show ?case by simp
next
  case (Cons c x)
  then show ?case
    by (cases "split_lines x") (auto split: list.splits)
qed

lemma split_lines_join:
  "ps \<noteq> [] \<Longrightarrow> split_lines (join_lines ps) = concat (map split_lines ps)"
  by (induction ps rule: join_lines.induct) (simp_all add: split_lines_append_nl)

lemma split_lines_single: "nl \<notin> set s \<Longrightarrow> split_lines s = [s]"
  by (induction s) auto

lemma split_lines_join_single:
  "ps \<noteq> [] \<Longrightarrow> list_all (\<lambda>p. nl \<notin> set p) ps \<Longrightarrow> split_lines (join_lines ps) = ps"
proof -
  assume ne: "ps \<noteq> []" and a: "list_all (\<lambda>p. nl \<notin> set p) ps"
  from a have "concat (map split_lines ps) = ps"
    by (induction ps) (simp_all add: split_lines_single)
  with ne show ?thesis by (simp add: split_lines_join)
qed

lemma char_not_nl [simp]:
  "of_char c \<noteq> (10 :: nat) \<Longrightarrow> c \<noteq> nl"
  "of_char c \<noteq> (10 :: nat) \<Longrightarrow> nl \<noteq> c"
  by (auto simp: nl_def)

lemma digit_char_not_nl [simp]: "digit_char d \<noteq> nl" "nl \<noteq> digit_char d"
  by (simp_all add: digit_char_def)

lemma string_of_nat_no_nl [simp]: "nl \<notin> set (string_of_nat n)"
  by (induction n rule: string_of_nat.induct) (subst string_of_nat.simps, simp)

lemma pad_nat_no_nl [simp]: "nl \<notin> set (pad_nat w n)"
  by (auto simp: pad_nat_def)

lemma toISOString_no_nl [simp]: "nl \<notin> set (toISOString d)"
  by (simp add: toISOString_def)

subsection \<open>Counting the elevation lines\<close>


lemma elevation_lines_append [simp]:
  "elevation_lines (a @ b) = elevation_lines a + elevation_lines b"
  by (simp add: elevation_lines_def)

lemma elevation_lines_Nil [simp]: "elevation_lines [] = 0"
  by (simp add: elevation_lines_def)










subsection \<open>The lines of the builder's own\<close>

lemma render_lit [simp]: "render [Lit s] = s"
  by (simp add: render_def)

lemma render_lit_lines [simp]: "map render (lit_lines ss) = ss"
  by (induction ss) (simp_all add: lit_lines_def)

lemma render_regular_lines [simp]: "map render (tagged_regular_lines ic) = regular_lines ic"
  by (cases ic) (simp add: tagged_regular_lines_def regular_lines_def render_def)

lemma render_sudo_lines [simp]: "map render (tagged_sudo_lines ic) = sudo_lines ic"
  by (cases ic) (simp add: tagged_sudo_lines_def sudo_lines_def render_def)

lemma render_announce_line [simp]: "render (tagged_announce_line cmd) = announce_line cmd"
  by (simp add: tagged_announce_line_def announce_line_def render_def)




lemma own_elevation_lit [simp]: "own_elevation [Lit s] = is_elevation_line s"
  by (simp add: own_elevation_def own_line_def)


lemma own_elevation_regular_lines [simp]: "filter own_elevation (tagged_regular_lines ic) = []"
  by (cases ic)
     (simp add: tagged_regular_lines_def own_elevation_def own_line_def is_elevation_line_def)

lemma own_elevation_sudo_lines [simp]: "filter own_elevation (tagged_sudo_lines ic) = []"
  by (cases ic)
     (simp add: tagged_sudo_lines_def own_elevation_def own_line_def is_elevation_line_def)

lemma own_elevation_announce [simp]: "\<not> own_elevation (tagged_announce_line cmd)"
  by (simp add: tagged_announce_line_def own_elevation_def own_line_def)






lemma command_texts_Nil [simp]: "command_texts [] = []"
  by (simp add: command_texts_def)

lemma command_texts_append [simp]:
  "command_texts (a @ b) = command_texts a @ command_texts b"
  by (simp add: command_texts_def)

lemma command_texts_Cons_lit [simp]: "command_texts ([Lit s] # ls) = command_texts ls"
  by (simp add: command_texts_def)

lemma command_texts_lit_lines [simp]: "command_texts (lit_lines ss) = []"
  by (induction ss) (simp_all add: lit_lines_def)

lemma command_texts_regular_lines [simp]:
  "command_texts (tagged_regular_lines (i, cmd)) = [command cmd]"
  by (simp add: tagged_regular_lines_def command_texts_def)

lemma command_texts_sudo_lines [simp]:
  "command_texts (tagged_sudo_lines (i, cmd)) = [command cmd]"
  by (simp add: tagged_sudo_lines_def command_texts_def)

lemma command_texts_announce [simp]:
  "command_texts (map tagged_announce_line cs) = []"
  by (induction cs) (simp_all add: tagged_announce_line_def command_texts_def)

lemma command_texts_regular_all:
  "command_texts (concat (map tagged_regular_lines (enumerate n cs))) = map command cs"
  by (induction cs arbitrary: n) simp_all


lemma command_texts_regular_block [simp]:
  "command_texts (tagged_regular_block cs) = map command cs"
  by (simp add: tagged_regular_block_def command_texts_regular_all)
















subsection \<open>Running the script\<close>

lemma claude_script_lines:
  "split_lines (buildScript sample_date (install_commands [''Claude Code CLI''])) =
   script_lines sample_date (install_commands [''Claude Code CLI''])"
  unfolding buildScript_def
  by (rule split_lines_join_single)
     (simp_all add: script_lines_def script_header_def script_trailer_def regular_block_def
      sudo_block_def sudo_lines_def announce_line_def install_commands_def addCommand_def
      mktemp_line_def heredoc_line_def pkexec_line_def rm_line_def)

text \<open>
  Claim C3, at the script built for the Claude Code CLI (one privileged command). When
  the \<^verbatim>\<open>pkexec\<close> line fails (the sub-script fails, or the user dismisses the prompt), the
  shell, running under \<^verbatim>\<open>set -e\<close>, exits at that line: \<^verbatim>\<open>rm -f "$SUDO_SCRIPT"\<close> on the next
  line is never run and the temporary sub-script stays. When every line succeeds, the
  file is removed.
\<close>

theorem failed_elevation_leaves_sudo_script:
  "run_script (\<lambda>l. l \<noteq> pkexec_line)
     (buildScript sample_date (install_commands [''Claude Code CLI''])) =
     \<lparr>mode = Exited, errexit = True, sudo_script_exists = True, elevated_runs = 1\<rparr> \<and>
   run_script (\<lambda>l. True)
     (buildScript sample_date (install_commands [''Claude Code CLI''])) =
     \<lparr>mode = Running, errexit = True, sudo_script_exists = False, elevated_runs = 1\<rparr>"
  unfolding run_script_def claude_script_lines
  by (simp add: script_lines_def script_header_def script_trailer_def regular_block_def
      sudo_block_def sudo_lines_def announce_line_def install_commands_def addCommand_def
      mktemp_line_def heredoc_line_def pkexec_line_def rm_line_def
      exec_line_def sh_init_def sh_fail_def startsWith_def is_elevation_line_def)

end
